theory Spec2Isabelle
  imports Complex_Main
begin

section \<open>Python and tensor primitives\<close>

text \<open>
  Tensor entries are modelled as real numbers: rounding and NaN are outside the model.
  A two-dimensional tensor is the list of its rows; an integer tensor is an \<open>int list\<close>.
  Every exception the code can raise is a value of \<open>error\<close>, returned as \<open>Inl\<close>.
\<close>

datatype error =
  IndexError | RuntimeError | UnboundLocalError | AttributeError | TypeError | ValueError

type_synonym matrix = "real list list"

text \<open>The edge tensor of shape [2, E] is the list of its E columns: row 0 holds the
  sources, row 1 the destinations.\<close>

type_synonym edge_index = "(int \<times> int) list"

definition row0 :: "edge_index \<Rightarrow> int list" where
  "row0 ei = map fst ei"

definition row1 :: "edge_index \<Rightarrow> int list" where
  "row1 ei = map snd ei"

text \<open>Indexing a tensor with one integer: a negative index counts from the end, an index
  outside [-n, n) raises.\<close>

definition getitem :: "'a list \<Rightarrow> int \<Rightarrow> error + 'a" where
  "getitem xs i =
     (if 0 \<le> i \<and> i < int (length xs) then Inr (xs ! nat i)
      else if - int (length xs) \<le> i \<and> i < 0 then Inr (xs ! nat (int (length xs) + i))
      else Inl IndexError)"

text \<open>Indexing with an integer tensor (\<open>t[idx]\<close>) gathers one row per index and raises as
  soon as one index is out of range.\<close>

fun index_rows :: "'a list \<Rightarrow> int list \<Rightarrow> error + 'a list" where
  "index_rows xs [] = Inr []"
| "index_rows xs (i # is) =
     (case getitem xs i of
        Inl e \<Rightarrow> Inl e
      | Inr r \<Rightarrow> (case index_rows xs is of Inl e \<Rightarrow> Inl e | Inr rs \<Rightarrow> Inr (r # rs)))"

text \<open>The slice \<open>t[a:b]\<close>: negative bounds count from the end, both bounds are clamped to
  the length, and a start at or after the stop gives the empty slice.\<close>

definition slice_bound :: "nat \<Rightarrow> int \<Rightarrow> nat" where
  "slice_bound n i = (if i < 0 then nat (max 0 (i + int n)) else min (nat i) n)"

definition py_slice :: "'a list \<Rightarrow> int \<Rightarrow> int \<Rightarrow> 'a list" where
  "py_slice xs a b =
     (let s = slice_bound (length xs) a; e = slice_bound (length xs) b
      in take (e - s) (drop s xs))"

text \<open>Boolean-mask indexing \<open>t[mask]\<close> keeps the rows whose flag is set; the mask must be
  as long as the tensor.\<close>

definition mask_select :: "'a list \<Rightarrow> bool list \<Rightarrow> error + 'a list" where
  "mask_select xs m =
     (if length m \<noteq> length xs then Inl IndexError
      else Inr (map fst (filter snd (zip xs m))))"

text \<open>\<open>t.sum(axis=0)\<close> of a tensor of shape [k, d]: the d column sums (all zero for k = 0).
  The width d is passed along, as a list of rows does not carry it when k = 0.\<close>

definition sum_axis0 :: "nat \<Rightarrow> matrix \<Rightarrow> real list" where
  "sum_axis0 d rs = map (\<lambda>j. sum_list (map (\<lambda>r. r ! j) rs)) [0..<d]"

text \<open>\<open>torch.stack\<close> refuses an empty list of tensors.\<close>

definition torch_stack :: "'a list \<Rightarrow> error + 'a list" where
  "torch_stack ts = (if ts = [] then Inl RuntimeError else Inr ts)"

text \<open>A list of rows is a tensor of shape [n, d] when every row has d entries.\<close>

definition is_matrix :: "nat \<Rightarrow> matrix \<Rightarrow> bool" where
  "is_matrix d m = list_all (\<lambda>r. length r = d) m"

section \<open>Edge filtration (compute_persistence, both files)\<close>

text \<open>
  \<open>filtered_e_, _ = torch.max(torch.stack((filtered_v_[edge_index[0]],
  filtered_v_[edge_index[1]])), axis=0)\<close>: the rows of the two endpoints are gathered and
  reduced entry by entry with max.
\<close>

definition filtered_e :: "matrix \<Rightarrow> edge_index \<Rightarrow> error + matrix" where
  "filtered_e filtered_v ei =
     (case index_rows filtered_v (row0 ei) of
        Inl e \<Rightarrow> Inl e
      | Inr src_rows \<Rightarrow>
          (case index_rows filtered_v (row1 ei) of
             Inl e \<Rightarrow> Inl e
           | Inr dst_rows \<Rightarrow> Inr (map2 (map2 max) src_rows dst_rows)))"

section \<open>Aggregation of the dim1 features\<close>

text \<open>\<open>persistence1_mask = (persistences1 != 0).any(2).any(0)\<close> on a tensor of shape
  [F, E, 2], held as F lists of E pairs: edge e is flagged when some channel has a
  nonzero birth or death.\<close>

definition persistence1_mask :: "(real \<times> real) list list \<Rightarrow> bool list" where
  "persistence1_mask persistences1 =
     (case persistences1 of
        [] \<Rightarrow> []
      | p # ps \<Rightarrow>
          map (\<lambda>e. list_ex (\<lambda>ch. fst (ch ! e) \<noteq> 0 \<or> snd (ch ! e) \<noteq> 0) (p # ps))
            [0..<length p])"

text \<open>The loop body of collapse_dim1 for one graph \<open>el\<close>.\<close>

definition collapse_el :: "nat \<Rightarrow> matrix \<Rightarrow> bool list \<Rightarrow> int list \<Rightarrow> nat \<Rightarrow> error + real list" where
  "collapse_el d activations msk slices el =
     (let activations_el' = py_slice activations (slices ! el) (slices ! (el + 1));
          mask_el = py_slice msk (slices ! el) (slices ! (el + 1))
      in case mask_select activations_el' mask_el of
           Inl e \<Rightarrow> Inl e
         | Inr sel \<Rightarrow> Inr (sum_axis0 d sel))"

fun collect :: "('a \<Rightarrow> error + 'b) \<Rightarrow> 'a list \<Rightarrow> error + 'b list" where
  "collect f [] = Inr []"
| "collect f (x # xs) =
     (case f x of
        Inl e \<Rightarrow> Inl e
      | Inr y \<Rightarrow> (case collect f xs of Inl e \<Rightarrow> Inl e | Inr ys \<Rightarrow> Inr (y # ys)))"

text \<open>collapse_dim1 of models.py; \<open>d\<close> is \<open>activations.shape[1]\<close>.\<close>

definition collapse_dim1 :: "nat \<Rightarrow> matrix \<Rightarrow> bool list \<Rightarrow> int list \<Rightarrow> error + matrix" where
  "collapse_dim1 d activations msk slices =
     (case collect (collapse_el d activations msk slices) [0..<length slices - 1] of
        Inl e \<Rightarrow> Inl e
      | Inr collapsed_activations \<Rightarrow> torch_stack collapsed_activations)"

text \<open>collapse_dim1 of topolayer.py, on the tensor of offsets forward passes when it has no
  batch: \<open>if len(slices) == 1: slices = torch.cat((slices, torch.LongTensor((0,))))\<close>, so
  a tensor of length 1 gets a 0 appended before the loop.\<close>

definition collapse_dim1_topolayer ::
  "nat \<Rightarrow> matrix \<Rightarrow> bool list \<Rightarrow> int list \<Rightarrow> error + matrix" where
  "collapse_dim1_topolayer d activations msk slices =
     (let slices' = (if length slices = 1 then slices @ [0] else slices)
      in case collect (collapse_el d activations msk slices') [0..<length slices' - 1] of
           Inl e \<Rightarrow> Inl e
         | Inr collapsed_activations \<Rightarrow> torch_stack collapsed_activations)"


section \<open>The modules of the layer\<close>

text \<open>\<open>torch.nn.Linear(in_features, out_features)\<close>: the weight has out_features rows of
  in_features entries. Its forward raises when a row of the input is not in_features wide.\<close>

record linear =
  in_features :: nat
  weight :: matrix
  bias :: "real list"

definition Linear :: "nat \<Rightarrow> nat \<Rightarrow> (nat \<Rightarrow> nat \<Rightarrow> real) \<times> (nat \<Rightarrow> real) \<Rightarrow> linear" where
  "Linear n_in n_out wb =
     \<lparr>in_features = n_in,
      weight = map (\<lambda>i. map (\<lambda>j. fst wb i j) [0..<n_in]) [0..<n_out],
      bias = map (snd wb) [0..<n_out]\<rparr>"

definition linear_row :: "linear \<Rightarrow> real list \<Rightarrow> real list" where
  "linear_row l r = map (\<lambda>(w, b). sum_list (map2 (*) w r) + b) (zip (weight l) (bias l))"

definition linear_forward :: "linear \<Rightarrow> matrix \<Rightarrow> error + matrix" where
  "linear_forward l inp =
     (if is_matrix (in_features l) inp then Inr (map (linear_row l) inp) else Inl RuntimeError)"

definition relu :: "matrix \<Rightarrow> matrix" where
  "relu m = map (map (max 0)) m"

text \<open>One filtration network: \<open>Sequential(Linear, ReLU, Linear, final_filtration_activation)\<close>,
  the last module being \<open>Tanh\<close> or \<open>Identity\<close>.\<close>

record mlp =
  lin1 :: linear
  lin2 :: linear
  final_activation :: "real \<Rightarrow> real"

definition mlp_forward :: "mlp \<Rightarrow> matrix \<Rightarrow> error + matrix" where
  "mlp_forward m inp =
     (case linear_forward (lin1 m) inp of
        Inl e \<Rightarrow> Inl e
      | Inr h \<Rightarrow>
          (case linear_forward (lin2 m) (relu h) of
             Inl e \<Rightarrow> Inl e
           | Inr y \<Rightarrow> Inr (map (map (final_activation m)) y)))"

datatype filtration_net = Sequential mlp | ModuleList "mlp list"

text \<open>A coordinate-function module of coord_transforms (not part of the sources under
  study): it maps every persistence pair to \<open>output_dim\<close> values. Its k-th function is a
  parameter.\<close>

record coord_fun =
  output_dim :: nat
  coord :: "nat \<Rightarrow> real \<times> real \<Rightarrow> real"

definition coord_forward :: "coord_fun \<Rightarrow> (real \<times> real) list \<Rightarrow> matrix" where
  "coord_forward m persistence = map (\<lambda>p. map (\<lambda>k. coord m k p) [0..<output_dim m]) persistence"

text \<open>\<open>torch.nn.BatchNorm1d(num_features)\<close> is a library module: the model keeps its
  interface only. It raises on an input that is not num_features wide, it may raise on
  other inputs (a single row in training mode), and otherwise it returns a tensor of the
  shape of its input whose entries are a parameter.\<close>

record batchnorm =
  num_features :: nat
  bn_raises :: "matrix \<Rightarrow> bool"
  bn_value :: "matrix \<Rightarrow> nat \<Rightarrow> nat \<Rightarrow> real"

definition bn_forward :: "batchnorm \<Rightarrow> matrix \<Rightarrow> error + matrix" where
  "bn_forward b inp =
     (if \<not> is_matrix (num_features b) inp then Inl RuntimeError
      else if bn_raises b inp then Inl ValueError
      else Inr (map (\<lambda>i. map (\<lambda>j. bn_value b inp i j) [0..<num_features b]) [0..<length inp]))"

text \<open>\<open>torch.cat(ts, 1)\<close>: the rows of the tensors are joined; an empty list and tensors with
  different numbers of rows are refused.\<close>

definition torch_cat1 :: "matrix list \<Rightarrow> error + matrix" where
  "torch_cat1 ts =
     (case ts of
        [] \<Rightarrow> Inl RuntimeError
      | t # rest \<Rightarrow>
          if list_all (\<lambda>t'. length t' = length t) rest
          then Inr (map (\<lambda>i. concat (map (\<lambda>t'. t' ! i) (t # rest))) [0..<length t])
          else Inl RuntimeError)"

text \<open>\<open>a + b\<close> on two-dimensional tensors, with broadcasting of a dimension of size 1.
  (Two empty tensors of different widths are not told apart.)\<close>

definition add_rows :: "real list \<Rightarrow> real list \<Rightarrow> error + real list" where
  "add_rows r s =
     (if length r = length s then Inr (map2 (+) r s)
      else if length r = 1 then Inr (map (\<lambda>v. hd r + v) s)
      else if length s = 1 then Inr (map (\<lambda>v. v + hd s) r)
      else Inl RuntimeError)"

definition tensor_add :: "matrix \<Rightarrow> matrix \<Rightarrow> error + matrix" where
  "tensor_add a b =
     (if length a = length b then collect (\<lambda>(r, s). add_rows r s) (zip a b)
      else if length a = 1 then collect (\<lambda>s. add_rows (hd a) s) b
      else if length b = 1 then collect (\<lambda>r. add_rows r (hd b)) a
      else Inl RuntimeError)"

section \<open>The layer and its constructor\<close>

text \<open>The attributes \<open>__init__\<close> sets. \<open>coord_fun_modules1\<close>, \<open>bn\<close> and \<open>out1\<close> exist only
  under the conditions of \<open>__init__\<close>; reading a missing one raises AttributeError.\<close>

record layer =
  dim1 :: bool
  features_in :: nat
  features_out :: nat
  num_filtrations :: nat
  filtration_hidden :: nat
  residual_and_bn :: bool
  share_filtration_parameters :: bool
  fake :: bool
  swap_bn_order :: bool
  dist_dim1 :: bool
  total_num_coord_funs :: nat
  coord_fun_modules :: "coord_fun list"
  coord_fun_modules1 :: "coord_fun list option"
  filtration_modules :: filtration_net
  bn :: "batchnorm option"
  out1 :: "linear option"
  out :: linear

text \<open>The arguments of the constructor of topolayer.py.\<close>

record config =
  cfg_features_in :: nat
  cfg_features_out :: nat
  cfg_num_filtrations :: nat
  cfg_num_coord_funs :: nat
  cfg_filtration_hidden :: nat
  cfg_num_coord_funs1 :: nat
  cfg_dim1 :: bool
  cfg_residual_and_bn :: bool
  cfg_share_filtration_parameters :: bool
  cfg_fake :: bool
  cfg_tanh_filtrations :: bool
  cfg_swap_bn_order :: bool
  cfg_dist_dim1 :: bool

text \<open>The values of the learnable parameters (random at construction, then trained): the
  constructor fixes every shape, the entries are arbitrary.\<close>

type_synonym lin_params = "(nat \<Rightarrow> nat \<Rightarrow> real) \<times> (nat \<Rightarrow> real)"

record params =
  filtration_params :: "nat \<Rightarrow> lin_params \<times> lin_params"
  coord_params :: "string \<Rightarrow> nat \<Rightarrow> real \<times> real \<Rightarrow> real"
  coord_params1 :: "string \<Rightarrow> nat \<Rightarrow> real \<times> real \<Rightarrow> real"
  out_params :: lin_params
  out1_params :: lin_params
  bn_params :: "(matrix \<Rightarrow> bool) \<times> (matrix \<Rightarrow> nat \<Rightarrow> nat \<Rightarrow> real)"

definition transform_names :: "string list" where
  "transform_names =
     [''Triangle_transform'', ''Gaussian_transform'', ''Line_transform'', ''RationalHat_transform'']"

definition filtration_mlp :: "config \<Rightarrow> params \<Rightarrow> nat \<Rightarrow> nat \<Rightarrow> mlp" where
  "filtration_mlp c p k n_out =
     \<lparr>lin1 = Linear (cfg_features_in c) (cfg_filtration_hidden c) (fst (filtration_params p k)),
      lin2 = Linear (cfg_filtration_hidden c) n_out (snd (filtration_params p k)),
      final_activation = (if cfg_tanh_filtrations c then tanh else (\<lambda>v. v))\<rparr>"

text \<open>\<open>TopologyLayer.__init__\<close> of topolayer.py. Under \<open>residual_and_bn\<close> the local
  \<open>features_out\<close> is rebound to \<open>features_in\<close> before \<open>bn\<close>, \<open>out1\<close> and \<open>out\<close> are built.\<close>

definition TopologyLayer_init :: "config \<Rightarrow> params \<Rightarrow> layer" where
  "TopologyLayer_init c p =
     (let total = sum_list (map (\<lambda>key. cfg_num_coord_funs c) transform_names);
          in_out_dim =
            (if cfg_residual_and_bn c then cfg_num_filtrations c * total
             else if cfg_dist_dim1 c then cfg_features_in c + 2 * cfg_num_filtrations c * total
             else cfg_features_in c + cfg_num_filtrations c * total);
          features_out' =
            (if cfg_residual_and_bn c then cfg_features_in c else cfg_features_out c)
      in \<lparr>dim1 = cfg_dim1 c,
          features_in = cfg_features_in c,
          features_out = cfg_features_out c,
          num_filtrations = cfg_num_filtrations c,
          filtration_hidden = cfg_filtration_hidden c,
          residual_and_bn = cfg_residual_and_bn c,
          share_filtration_parameters = cfg_share_filtration_parameters c,
          fake = cfg_fake c,
          swap_bn_order = cfg_swap_bn_order c,
          dist_dim1 = cfg_dist_dim1 c,
          total_num_coord_funs = total,
          coord_fun_modules =
            map (\<lambda>key. \<lparr>output_dim = cfg_num_coord_funs c, coord = coord_params p key\<rparr>)
              transform_names,
          coord_fun_modules1 =
            (if cfg_dim1 c
             then Some (map (\<lambda>key. \<lparr>output_dim = cfg_num_coord_funs1 c,
                                      coord = coord_params1 p key\<rparr>) transform_names)
             else None),
          filtration_modules =
            (if cfg_share_filtration_parameters c
             then Sequential (filtration_mlp c p 0 (cfg_num_filtrations c))
             else ModuleList (map (\<lambda>k. filtration_mlp c p k 1) [0..<cfg_num_filtrations c])),
          bn =
            (if cfg_residual_and_bn c
             then Some \<lparr>num_features = features_out', bn_raises = fst (bn_params p),
                        bn_value = snd (bn_params p)\<rparr>
             else None),
          out1 =
            (if cfg_residual_and_bn c \<and> cfg_dist_dim1 c \<and> cfg_dim1 c
             then Some (Linear (cfg_num_filtrations c * total) features_out' (out1_params p))
             else None),
          out = Linear in_out_dim features_out' (out_params p)\<rparr>)"


section \<open>Batches and the code outside the two files\<close>

text \<open>What the code reads of a torch_geometric batch: \<open>batch.x\<close>, \<open>batch.edge_index\<close>,
  \<open>batch.batch\<close> and the two entries of \<open>batch.__slices__\<close>.\<close>

record batch =
  batch_x :: matrix
  batch_edge_index :: edge_index
  batch_batch :: "int list"
  slices_x :: "int list"
  slices_edge_index :: "int list"

text \<open>Persistence pairs of shape [F, n, 2]: one list of n (birth, death) pairs per
  filtration channel.\<close>

type_synonym pairs = "(real \<times> real) list list"

text \<open>
  Functions the two files import and whose code is not among the sources: the
  persistence engine \<open>compute_persistence_homology_batched_mt\<close>,
  \<open>fake_persistence_computation\<close> of layers, and \<open>remove_duplicate_edges\<close> of
  data_utils (called by forward of models.py). They are parameters of the model.
\<close>

record externals =
  compute_persistence_homology_batched_mt ::
    "matrix \<Rightarrow> matrix \<Rightarrow> edge_index \<Rightarrow> int list \<Rightarrow> int list \<Rightarrow> error + pairs \<times> pairs"
  fake_persistence_computation ::
    "matrix \<Rightarrow> edge_index \<Rightarrow> int list \<Rightarrow> int list \<Rightarrow> int list
       \<Rightarrow> error + pairs \<times> pairs \<times> matrix option"
  data_utils_remove_duplicate_edges :: "batch \<Rightarrow> error + batch"

section \<open>compute_persistence\<close>

text \<open>The vertex filtration: one shared network, or the outputs of the networks of the
  module list joined along dimension 1.\<close>

definition filtered_v :: "layer \<Rightarrow> matrix \<Rightarrow> error + matrix" where
  "filtered_v L x =
     (if share_filtration_parameters L
      then (case filtration_modules L of
              Sequential m \<Rightarrow> mlp_forward m x
            | ModuleList ms \<Rightarrow> Inl TypeError)
      else (case filtration_modules L of
              Sequential m \<Rightarrow> Inl TypeError
            | ModuleList ms \<Rightarrow>
                (case collect (\<lambda>m. mlp_forward m x) ms of
                   Inl e \<Rightarrow> Inl e
                 | Inr ys \<Rightarrow> torch_cat1 ys)))"

text \<open>The number of filtration channels, \<open>filtered_v_.shape[1]\<close>.\<close>

definition mlp_width :: "mlp \<Rightarrow> nat" where
  "mlp_width m = length (weight (lin2 m))"

definition filtration_width :: "layer \<Rightarrow> nat" where
  "filtration_width L =
     (case filtration_modules L of
        Sequential m \<Rightarrow> mlp_width m
      | ModuleList ms \<Rightarrow> sum_list (map mlp_width ms))"

text \<open>\<open>t.transpose(1, 0)\<close> of a tensor of shape [n, w].\<close>

definition transpose10 :: "nat \<Rightarrow> matrix \<Rightarrow> matrix" where
  "transpose10 w m = map (\<lambda>j. map (\<lambda>r. r ! j) m) [0..<w]"

text \<open>compute_persistence of models.py. The offsets of the batch pass through
  \<open>torch.Tensor(...).long()\<close>, a float32 tensor: the model takes them as they are, which is
  exact below 2^24.\<close>

definition compute_persistence ::
  "externals \<Rightarrow> layer \<Rightarrow> matrix \<Rightarrow> batch \<Rightarrow> bool \<Rightarrow> error + pairs \<times> pairs \<times> matrix option" where
  "compute_persistence ext L x b return_filtration =
     (let ei = batch_edge_index b in
      case filtered_v L x of
        Inl e \<Rightarrow> Inl e
      | Inr fv \<Rightarrow>
          (case filtered_e fv ei of
             Inl e \<Rightarrow> Inl e
           | Inr fe \<Rightarrow>
               (let vertex_slices = slices_x b; edge_slices = slices_edge_index b in
                if fake L
                then fake_persistence_computation ext fv ei vertex_slices edge_slices
                       (batch_batch b)
                else
                  (let fvT = transpose10 (filtration_width L) fv;
                       feT = transpose10 (filtration_width L) fe
                   in case compute_persistence_homology_batched_mt ext fvT feT ei
                             vertex_slices edge_slices of
                        Inl e \<Rightarrow> Inl e
                      | Inr (persistence0_new, persistence1_new) \<Rightarrow>
                          Inr (persistence0_new, persistence1_new,
                               if return_filtration then Some fvT else None)))))"

text \<open>The offsets compute_persistence of topolayer.py builds when \<open>batch is None\<close>:
  \<open>torch.Tensor((x.shape[0],)).long()\<close> and \<open>torch.Tensor((edge_index.shape[0],)).long()\<close>.
  The edge tensor has shape [2, E], so its \<open>shape[0]\<close> is 2.\<close>

definition edge_index_shape0 :: "edge_index \<Rightarrow> int" where
  "edge_index_shape0 ei = 2"

definition single_graph_slices :: "matrix \<Rightarrow> edge_index \<Rightarrow> int list \<times> int list" where
  "single_graph_slices x ei = ([int (length x)], [edge_index_shape0 ei])"

text \<open>compute_persistence of topolayer.py. The offsets are bound only when
  \<open>batch is None\<close> (the other branch is commented out), so with a batch the first use of
  \<open>vertex_slices\<close> raises.\<close>

definition compute_persistence_topolayer ::
  "externals \<Rightarrow> layer \<Rightarrow> matrix \<Rightarrow> edge_index option \<Rightarrow> batch option \<Rightarrow> bool
     \<Rightarrow> error + pairs \<times> pairs \<times> matrix option" where
  "compute_persistence_topolayer ext L x edge_index_arg b return_filtration =
     (case (case edge_index_arg of
              Some ei \<Rightarrow> Inr ei
            | None \<Rightarrow> (case b of None \<Rightarrow> Inl AttributeError
                                | Some bb \<Rightarrow> Inr (batch_edge_index bb))) of
        Inl e \<Rightarrow> Inl e
      | Inr ei \<Rightarrow>
          (case filtered_v L x of
             Inl e \<Rightarrow> Inl e
           | Inr fv \<Rightarrow>
               (case filtered_e fv ei of
                  Inl e \<Rightarrow> Inl e
                | Inr fe \<Rightarrow>
                    (case b of
                       Some bb \<Rightarrow> Inl UnboundLocalError
                     | None \<Rightarrow>
                         (let vertex_slices = fst (single_graph_slices x ei);
                              edge_slices = snd (single_graph_slices x ei);
                              batch_index = map (\<lambda>_. 0) (row0 ei)
                          in if fake L
                             then fake_persistence_computation ext fv ei vertex_slices
                                    edge_slices batch_index
                             else
                               (let fvT = transpose10 (filtration_width L) fv;
                                    feT = transpose10 (filtration_width L) fe
                                in case compute_persistence_homology_batched_mt ext fvT feT ei
                                          vertex_slices edge_slices of
                                     Inl e \<Rightarrow> Inl e
                                   | Inr (persistence0_new, persistence1_new) \<Rightarrow>
                                       Inr (persistence0_new, persistence1_new,
                                            if return_filtration then Some fvT else None)))))))"

section \<open>Coordinate activations\<close>

definition compute_coord_fun :: "layer \<Rightarrow> (real \<times> real) list \<Rightarrow> bool \<Rightarrow> error + matrix" where
  "compute_coord_fun L persistence d1 =
     (if d1
      then (case coord_fun_modules1 L of
              None \<Rightarrow> Inl AttributeError
            | Some mods \<Rightarrow> torch_cat1 (map (\<lambda>m. coord_forward m persistence) mods))
      else torch_cat1 (map (\<lambda>m. coord_forward m persistence) (coord_fun_modules L)))"

definition compute_coord_activations :: "layer \<Rightarrow> pairs \<Rightarrow> bool \<Rightarrow> error + matrix" where
  "compute_coord_activations L persistences d1 =
     (case collect (\<lambda>persistence. compute_coord_fun L persistence d1) persistences of
        Inl e \<Rightarrow> Inl e
      | Inr coord_activations \<Rightarrow> torch_cat1 coord_activations)"

text \<open>The width of the dim1 coordinate activations, \<open>coord_activations1.shape[1]\<close>.\<close>

definition coord_width1 :: "layer \<Rightarrow> pairs \<Rightarrow> nat" where
  "coord_width1 L persistences1 =
     length persistences1 *
       (case coord_fun_modules1 L of None \<Rightarrow> 0 | Some mods \<Rightarrow> sum_list (map output_dim mods))"

section \<open>forward\<close>

text \<open>
  \<open>out_activations += self.out1(graph_activations1)[batch]\<close>. The index is the argument
  \<open>batch\<close> of forward itself: \<open>None\<close>, which adds a leading dimension of size 1, or the
  batch object, which \<open>self.out1(graph_activations1)\<close>, a tensor of two dimensions,
  refuses with IndexError (too many indices). The in-place addition of a
  three-dimensional tensor into the two-dimensional \<open>out_activations\<close> is refused, as the
  broadcast shape has three dimensions.
\<close>

definition getitem_batch :: "matrix \<Rightarrow> batch option \<Rightarrow> error + matrix list" where
  "getitem_batch t b = (case b of None \<Rightarrow> Inr [t] | Some bb \<Rightarrow> Inl IndexError)"

definition iadd :: "matrix \<Rightarrow> matrix list \<Rightarrow> error + matrix" where
  "iadd out_activations t3 = Inl RuntimeError"

text \<open>The last part of forward, the same text in both files: the residual branch with
  batch normalisation, or the concatenation branch. It returns \<open>out_activations\<close> and
  \<open>graph_activations1\<close>.\<close>

definition combine ::
  "layer \<Rightarrow> matrix \<Rightarrow> matrix \<Rightarrow> matrix option \<Rightarrow> batch option \<Rightarrow> error + matrix \<times> matrix option" where
  "combine L x coord_activations graph_activations1 b =
     (if residual_and_bn L then
        (case linear_forward (out L) coord_activations of
           Inl e \<Rightarrow> Inl e
         | Inr out_activations \<Rightarrow>
             (case (if dim1 L \<and> dist_dim1 L
                    then (case out1 L of
                            None \<Rightarrow> Inl AttributeError
                          | Some l1 \<Rightarrow>
                              (case graph_activations1 of
                                 None \<Rightarrow> Inl TypeError
                               | Some g \<Rightarrow>
                                   (case linear_forward l1 g of
                                      Inl e \<Rightarrow> Inl e
                                    | Inr t \<Rightarrow>
                                        (case getitem_batch t b of
                                           Inl e \<Rightarrow> Inl e
                                         | Inr t3 \<Rightarrow>
                                             (case iadd out_activations t3 of
                                                Inl e \<Rightarrow> Inl e
                                              | Inr o' \<Rightarrow> Inr (o', None))))))
                    else Inr (out_activations, graph_activations1)) of
                Inl e \<Rightarrow> Inl e
              | Inr (out_activations', graph_activations1') \<Rightarrow>
                  (case bn L of
                     None \<Rightarrow> Inl AttributeError
                   | Some bnm \<Rightarrow>
                       (case bn_forward bnm out_activations' of
                          Inl e \<Rightarrow> Inl e
                        | Inr normed \<Rightarrow>
                            (case tensor_add x (if swap_bn_order L then relu normed else normed) of
                               Inl e \<Rightarrow> Inl e
                             | Inr res \<Rightarrow> Inr (res, graph_activations1'))))))
      else
        (case torch_cat1 [x, coord_activations] of
           Inl e \<Rightarrow> Inl e
         | Inr concat_activations \<Rightarrow>
             (case linear_forward (out L) concat_activations of
                Inl e \<Rightarrow> Inl e
              | Inr out_activations \<Rightarrow> Inr (relu out_activations, graph_activations1))))"

text \<open>The dim1 branch of forward: the mask, the dim1 coordinate activations and their
  sum per graph, with the collapse_dim1 of the file.\<close>

definition graph_activations1_of ::
  "(nat \<Rightarrow> matrix \<Rightarrow> bool list \<Rightarrow> int list \<Rightarrow> error + matrix) \<Rightarrow> layer \<Rightarrow> pairs \<Rightarrow> int list
     \<Rightarrow> error + matrix option" where
  "graph_activations1_of collapse L persistences1 edge_slices =
     (if dim1 L then
        (let persistence1_mask' = persistence1_mask persistences1 in
         case compute_coord_activations L persistences1 True of
           Inl e \<Rightarrow> Inl e
         | Inr coord_activations1 \<Rightarrow>
             (case collapse (coord_width1 L persistences1) coord_activations1
                     persistence1_mask' edge_slices of
                Inl e \<Rightarrow> Inl e
              | Inr g \<Rightarrow> Inr (Some g)))
      else Inr None)"

text \<open>What forward does once the persistence pairs are there (both files).\<close>

definition forward_tail ::
  "(nat \<Rightarrow> matrix \<Rightarrow> bool list \<Rightarrow> int list \<Rightarrow> error + matrix) \<Rightarrow> layer \<Rightarrow> matrix \<Rightarrow> batch option
     \<Rightarrow> int list \<Rightarrow> pairs \<times> pairs \<times> matrix option
     \<Rightarrow> error + matrix \<times> matrix option \<times> matrix option" where
  "forward_tail collapse L x b edge_slices ps =
     (case ps of (persistences0, persistences1, filtration) \<Rightarrow>
        (case compute_coord_activations L persistences0 False of
           Inl e \<Rightarrow> Inl e
         | Inr coord_activations \<Rightarrow>
             (case graph_activations1_of collapse L persistences1 edge_slices of
                Inl e \<Rightarrow> Inl e
              | Inr graph_activations1 \<Rightarrow>
                  (case combine L x coord_activations graph_activations1 b of
                     Inl e \<Rightarrow> Inl e
                   | Inr (out_activations, graph_activations1') \<Rightarrow>
                       Inr (out_activations, graph_activations1', filtration)))))"

text \<open>forward of models.py: the duplicate edges are removed first, by the function of
  data_utils.\<close>

definition forward ::
  "externals \<Rightarrow> layer \<Rightarrow> matrix \<Rightarrow> batch \<Rightarrow> bool \<Rightarrow> error + matrix \<times> matrix option \<times> matrix option" where
  "forward ext L x b return_filtration =
     (case data_utils_remove_duplicate_edges ext b of
        Inl e \<Rightarrow> Inl e
      | Inr b' \<Rightarrow>
          (case compute_persistence ext L x b' return_filtration of
             Inl e \<Rightarrow> Inl e
           | Inr ps \<Rightarrow> forward_tail collapse_dim1 L x (Some b') (slices_edge_index b') ps))"

text \<open>forward of topolayer.py: the removal of duplicate edges is commented out; the edge
  offsets are \<open>[edge_index.shape[0]]\<close> without a batch and the offsets of the batch
  otherwise.\<close>

definition forward_topolayer ::
  "externals \<Rightarrow> layer \<Rightarrow> matrix \<Rightarrow> edge_index option \<Rightarrow> batch option \<Rightarrow> bool
     \<Rightarrow> error + matrix \<times> matrix option \<times> matrix option" where
  "forward_topolayer ext L x edge_index_arg b return_filtration =
     (case (case b of
              None \<Rightarrow> (case edge_index_arg of
                         None \<Rightarrow> Inl AttributeError
                       | Some ei \<Rightarrow> Inr [edge_index_shape0 ei])
            | Some bb \<Rightarrow> Inr (slices_edge_index bb)) of
        Inl e \<Rightarrow> Inl e
      | Inr edge_slices \<Rightarrow>
          (case compute_persistence_topolayer ext L x edge_index_arg b return_filtration of
             Inl e \<Rightarrow> Inl e
           | Inr ps \<Rightarrow> forward_tail collapse_dim1_topolayer L x b edge_slices ps))"


section \<open>remove_duplicate_edges (topolayer.py)\<close>

text \<open>\<open>edge_slices[1:] - edge_slices[:-1]\<close>.\<close>

definition edge_diff_slices :: "int list \<Rightarrow> int list" where
  "edge_diff_slices edge_slices = map2 (-) (tl edge_slices) (butlast edge_slices)"

text \<open>\<open>torch.repeat_interleave(torch.arange(n), repeats)\<close>: a negative count is refused.\<close>

definition repeat_interleave :: "nat list \<Rightarrow> int list \<Rightarrow> error + nat list" where
  "repeat_interleave vals repeats =
     (if list_ex (\<lambda>r. r < 0) repeats then Inl RuntimeError
      else Inr (concat (map (\<lambda>(v, r). replicate (nat r) v) (zip vals repeats))))"

text \<open>
  \<open>scatter(src, index, reduce="sum")\<close> of torch_scatter, called without \<open>dim_size\<close>: the
  index is first expanded to the shape of \<open>src\<close> (possible when it has the same length, or
  length 1), and the output has \<open>index.max() + 1\<close> entries, none for an empty index.
\<close>

definition scatter_size :: "nat list \<Rightarrow> nat" where
  "scatter_size index = (if index = [] then 0 else Suc (foldr max index 0))"

definition scatter_add :: "int list \<Rightarrow> nat list \<Rightarrow> int list" where
  "scatter_add src index =
     map (\<lambda>g. sum_list (map fst (filter (\<lambda>(v, i). i = g) (zip src index))))
       [0..<scatter_size index]"

definition scatter_sum :: "int list \<Rightarrow> nat list \<Rightarrow> error + int list" where
  "scatter_sum src index =
     (if length index = length src then Inr (scatter_add src index)
      else if length index = 1 then Inr (scatter_add src (replicate (length src) (hd index)))
      else Inl RuntimeError)"

fun cumsum_from :: "int \<Rightarrow> int list \<Rightarrow> int list" where
  "cumsum_from acc [] = []"
| "cumsum_from acc (v # vs) = (acc + v) # cumsum_from (acc + v) vs"

definition cumsum :: "int list \<Rightarrow> int list" where
  "cumsum vs = cumsum_from 0 vs"

text \<open>The values remove_duplicate_edges computes from the edge tensor and the edge
  offsets of the cloned batch: the new edge tensor and the new offsets.\<close>

definition remove_duplicate_edges_values ::
  "edge_index \<Rightarrow> int list \<Rightarrow> error + edge_index \<times> int list" where
  "remove_duplicate_edges_values ei edge_slices =
     (let diffs = edge_diff_slices edge_slices;
          n_batch = length diffs
      in case repeat_interleave [0..<n_batch] diffs of
           Inl e \<Rightarrow> Inl e
         | Inr batch_e \<Rightarrow>
             (let correct_idx = map2 (\<le>) (row0 ei) (row1 ei) in
              case scatter_sum (map (\<lambda>c. if c then 1 else 0) correct_idx) batch_e of
                Inl e \<Rightarrow> Inl e
              | Inr n_edges \<Rightarrow>
                  Inr (map fst (filter snd (zip ei correct_idx)), cumsum (0 # n_edges))))"

text \<open>The value of \<open>batch_e\<close> for edge counts \<open>ds\<close>: the number of each graph, from \<open>a\<close> on,
  once per edge of the graph.\<close>

definition blocks :: "nat \<Rightarrow> int list \<Rightarrow> nat list" where
  "blocks a ds = concat (map (\<lambda>(v, r). replicate (nat r) v) (zip [a..<a + length ds] ds))"

text \<open>
  The objects a batch is made of live in a store, as the function clones its argument and
  then assigns to an attribute and to an entry of the dictionary \<open>__slices__\<close>.
  A batch object holds references to its tensors and to its dictionary.
\<close>

type_synonym ref = nat

datatype obj =
    FloatTensor matrix
  | EdgeTensor edge_index
  | LongTensor "int list"
  | SlicesDict "string \<rightharpoonup> int list"
  | BatchObj (attr_x: ref) (attr_edge_index: ref) (attr_batch: ref) (attr_slices: ref)

record heap =
  cells :: "ref \<rightharpoonup> obj"
  next_ref :: ref

definition alloc :: "heap \<Rightarrow> obj \<Rightarrow> heap \<times> ref" where
  "alloc h ob = (h\<lparr>cells := (cells h)(next_ref h \<mapsto> ob), next_ref := Suc (next_ref h)\<rparr>, next_ref h)"

text \<open>\<open>Data.clone\<close> of torch_geometric: every tensor attribute is cloned and every other
  attribute is deep-copied, so the clone shares no object with the original.\<close>

definition copy_obj :: "heap \<Rightarrow> ref \<Rightarrow> (heap \<times> ref) option" where
  "copy_obj h r = (case cells h r of None \<Rightarrow> None | Some ob \<Rightarrow> Some (alloc h ob))"

definition clone :: "heap \<Rightarrow> ref \<Rightarrow> (heap \<times> ref) option" where
  "clone h r =
     (case cells h r of
        Some (BatchObj rx re rb rs) \<Rightarrow>
          (case copy_obj h rx of None \<Rightarrow> None | Some (h1, rx') \<Rightarrow>
          (case copy_obj h1 re of None \<Rightarrow> None | Some (h2, re') \<Rightarrow>
          (case copy_obj h2 rb of None \<Rightarrow> None | Some (h3, rb') \<Rightarrow>
          (case copy_obj h3 rs of None \<Rightarrow> None | Some (h4, rs') \<Rightarrow>
             Some (alloc h4 (BatchObj rx' re' rb' rs'))))))
      | _ \<Rightarrow> None)"

text \<open>Reading \<open>batch.edge_index\<close> and \<open>batch.__slices__["edge_index"]\<close> of the batch at a
  reference.\<close>

definition read_edge_index :: "heap \<Rightarrow> ref \<Rightarrow> edge_index option" where
  "read_edge_index h r =
     (case cells h r of
        Some (BatchObj rx re rb rs) \<Rightarrow>
          (case cells h re of Some (EdgeTensor ei) \<Rightarrow> Some ei | _ \<Rightarrow> None)
      | _ \<Rightarrow> None)"

definition read_edge_slices :: "heap \<Rightarrow> ref \<Rightarrow> int list option" where
  "read_edge_slices h r =
     (case cells h r of
        Some (BatchObj rx re rb rs) \<Rightarrow>
          (case cells h rs of Some (SlicesDict d) \<Rightarrow> d ''edge_index'' | _ \<Rightarrow> None)
      | _ \<Rightarrow> None)"

text \<open>remove_duplicate_edges on the store. It returns the store it leaves behind and
  either the reference of the returned batch or the exception.\<close>

definition remove_duplicate_edges :: "heap \<Rightarrow> ref \<Rightarrow> heap \<times> (error + ref)" where
  "remove_duplicate_edges h r =
     (case clone h r of
        None \<Rightarrow> (h, Inl AttributeError)
      | Some (h1, r1) \<Rightarrow>
          (case (read_edge_index h1 r1, read_edge_slices h1 r1, cells h1 r1) of
             (Some ei, Some edge_slices, Some (BatchObj rx re rb rs)) \<Rightarrow>
               (case remove_duplicate_edges_values ei edge_slices of
                  Inl e \<Rightarrow> (h1, Inl e)
                | Inr (ei', new_slices) \<Rightarrow>
                    (let (h2, re') = alloc h1 (EdgeTensor ei');
                         h3 = h2\<lparr>cells := (cells h2)(r1 \<mapsto> BatchObj rx re' rb rs)\<rparr>;
                         h4 = (case cells h3 rs of
                                 Some (SlicesDict d) \<Rightarrow>
                                   h3\<lparr>cells := (cells h3)
                                     (rs \<mapsto> SlicesDict (d(''edge_index'' \<mapsto> new_slices)))\<rparr>
                               | _ \<Rightarrow> h3)
                     in (h4, Inr r1)))
           | _ \<Rightarrow> (h1, Inl AttributeError)))"


section \<open>The persistence engine\<close>

text \<open>
  Modelled from the spec: the batched persistence engine
  (\<open>compute_persistence_homology_batched_mt\<close> of torch_persistent_homology), whose code is
  not among the sources. The definitions follow section 4.2 of the specification: per
  graph and per channel, the edges are processed in ascending order of their filtration
  value (ties in the original order) over a union-find structure, here the list of the
  representative of every vertex.
\<close>

record uf_state =
  comp :: "nat list"
  pairs0 :: "(real \<times> real) list"
  pairs1 :: "(real \<times> real) list"

text \<open>Modelled from the spec: one edge. An edge inside a component creates a cycle pair
  (own value, value of the last edge processed); an edge between two components emits the
  pair (birth, value of the edge) for the representative with the lower birth (the first
  endpoint's on a tie) and merges it into the other.\<close>

definition process_edge ::
  "real list \<Rightarrow> (nat \<times> nat) list \<Rightarrow> real list \<Rightarrow> real \<Rightarrow> nat \<Rightarrow> uf_state \<Rightarrow> uf_state" where
  "process_edge fv edges fe last_value i st =
     (let u = fst (edges ! i); v = snd (edges ! i); w = fe ! i;
          ru = comp st ! u; rv = comp st ! v
      in if ru = rv then st\<lparr>pairs1 := (pairs1 st)[i := (w, last_value)]\<rparr>
         else
           (let dying = (if fv ! ru \<le> fv ! rv then ru else rv);
                surviving = (if fv ! ru \<le> fv ! rv then rv else ru)
            in st\<lparr>comp := map (\<lambda>c. if c = dying then surviving else c) (comp st),
                  pairs0 := (pairs0 st)[dying := (fv ! dying, w)]\<rparr>))"

text \<open>Modelled from the spec: one graph and one channel, on the graph's own vertex
  numbering. Every vertex whose component was never merged away emits (birth, birth) at
  the end. An endpoint outside the graph is fatal.\<close>

definition persistence_graph ::
  "real list \<Rightarrow> (nat \<times> nat) list \<Rightarrow> real list
     \<Rightarrow> error + (real \<times> real) list \<times> (real \<times> real) list" where
  "persistence_graph fv edges fe =
     (if list_ex (\<lambda>(u, v). u \<ge> length fv \<or> v \<ge> length fv) edges \<or> length fe \<noteq> length edges
      then Inl RuntimeError
      else
        (let n = length fv;
             order = sort_key (\<lambda>i. fe ! i) [0..<length edges];
             last_value = (if order = [] then 0 else fe ! last order);
             init = \<lparr>comp = [0..<n], pairs0 = replicate n (0, 0),
                     pairs1 = replicate (length edges) (0, 0)\<rparr>;
             st = foldl (\<lambda>s i. process_edge fv edges fe last_value i s) init order
         in Inr (map (\<lambda>v. if comp st ! v = v then (fv ! v, fv ! v) else pairs0 st ! v) [0..<n],
                 pairs1 st)))"

text \<open>Modelled from the spec: the validation at entry. Both offset arrays are nonempty,
  equally long, nondecreasing and within the arrays they delimit.\<close>

definition valid_offsets :: "int list \<Rightarrow> nat \<Rightarrow> bool" where
  "valid_offsets offs n_total =
     (offs \<noteq> [] \<and> sorted offs \<and> list_all (\<lambda>o'. 0 \<le> o' \<and> o' \<le> int n_total) offs)"

text \<open>Modelled from the spec: graph g of a packed batch, for one channel: its slice of the
  vertex values, its edges renumbered from its first vertex, and its slice of the edge
  values.\<close>

definition graph_persistence ::
  "real list \<Rightarrow> real list \<Rightarrow> edge_index \<Rightarrow> int list \<Rightarrow> int list \<Rightarrow> nat
     \<Rightarrow> error + (real \<times> real) list \<times> (real \<times> real) list" where
  "graph_persistence fv_row fe_row edge_list vertex_slices edge_slices g =
     (let a = vertex_slices ! g; b = vertex_slices ! (g + 1);
          c = edge_slices ! g; d = edge_slices ! (g + 1);
          es = py_slice edge_list c d
      in if list_ex (\<lambda>(u, v). u < a \<or> u \<ge> b \<or> v < a \<or> v \<ge> b) es then Inl RuntimeError
         else persistence_graph (py_slice fv_row a b)
                (map (\<lambda>(u, v). (nat (u - a), nat (v - a))) es) (py_slice fe_row c d))"

text \<open>Modelled from the spec: the output of one channel has one pair per vertex and one
  per edge of the batch (a fixed shape); a position outside every graph keeps the
  all-zero pair.\<close>

definition graph_of :: "int list \<Rightarrow> nat \<Rightarrow> nat option" where
  "graph_of offs k =
     find (\<lambda>g. offs ! g \<le> int k \<and> int k < offs ! (g + 1)) [0..<length offs - 1]"

definition channel_persistence ::
  "real list \<Rightarrow> real list \<Rightarrow> edge_index \<Rightarrow> int list \<Rightarrow> int list
     \<Rightarrow> error + (real \<times> real) list \<times> (real \<times> real) list" where
  "channel_persistence fv_row fe_row edge_list vertex_slices edge_slices =
     (case collect (graph_persistence fv_row fe_row edge_list vertex_slices edge_slices)
             [0..<length vertex_slices - 1] of
        Inl e \<Rightarrow> Inl e
      | Inr per_graph \<Rightarrow>
          Inr (map (\<lambda>k. case graph_of vertex_slices k of
                          None \<Rightarrow> (0, 0)
                        | Some g \<Rightarrow> fst (per_graph ! g) ! (k - nat (vertex_slices ! g)))
                 [0..<length fv_row],
               map (\<lambda>k. case graph_of edge_slices k of
                          None \<Rightarrow> (0, 0)
                        | Some g \<Rightarrow> snd (per_graph ! g) ! (k - nat (edge_slices ! g)))
                 [0..<length fe_row]))"

text \<open>Modelled from the spec: the engine on vertexFiltration[F, N], edgeFiltration[F, E],
  edgeList[E, 2] and the two offset arrays.\<close>

definition persistence_engine ::
  "matrix \<Rightarrow> matrix \<Rightarrow> edge_index \<Rightarrow> int list \<Rightarrow> int list \<Rightarrow> error + pairs \<times> pairs" where
  "persistence_engine fv fe edge_list vertex_slices edge_slices =
     (if length fe \<noteq> length fv \<or> length edge_slices \<noteq> length vertex_slices
         \<or> \<not> list_all (\<lambda>r. valid_offsets vertex_slices (length r)) fv
         \<or> \<not> list_all (\<lambda>r. valid_offsets edge_slices (length r) \<and> length r = length edge_list) fe
         \<or> vertex_slices = []
      then Inl RuntimeError
      else
        (case collect (\<lambda>(fv_row, fe_row).
                  channel_persistence fv_row fe_row edge_list vertex_slices edge_slices)
                (zip fv fe) of
           Inl e \<Rightarrow> Inl e
         | Inr chans \<Rightarrow> Inr (map fst chans, map snd chans)))"


section \<open>Properties asked of the offsets\<close>

text \<open>The invariant of the offsets of a packed batch: nondecreasing, first entry 0, last
  entry the number of items.\<close>

definition packed_offsets :: "int list \<Rightarrow> int \<Rightarrow> bool" where
  "packed_offsets offs n_items = (offs \<noteq> [] \<and> sorted offs \<and> hd offs = 0 \<and> last offs = n_items)"

text \<open>The offsets the specification asks of the removal of duplicate edges, the
  cumulative retained edge counts: at every old offset, the number of retained edges
  before it.\<close>

definition retained_offsets :: "edge_index \<Rightarrow> int list \<Rightarrow> int list" where
  "retained_offsets ei edge_slices =
     map (\<lambda>s. int (length (filter (\<lambda>p. fst p \<le> snd p) (take (nat s) ei)))) edge_slices"

text \<open>Modelled from the spec: remove_duplicate_edges of data_utils, which forward of
  models.py calls and whose code is not among the sources. Section 6 of the
  specification: it keeps the canonical direction (source index at most the destination
  index) and rewrites the edge offsets to the reduced per-graph counts.\<close>

definition spec_remove_duplicate_edges :: "batch \<Rightarrow> error + batch" where
  "spec_remove_duplicate_edges b =
     Inr (b\<lparr>batch_edge_index := filter (\<lambda>p. fst p \<le> snd p) (batch_edge_index b),
            slices_edge_index := retained_offsets (batch_edge_index b) (slices_edge_index b)\<rparr>)"

section \<open>Example inputs\<close>

text \<open>A small layer for concrete runs: one input feature, one filtration channel, one
  coordinate function per family, every weight 1 and every bias 0, and a normalisation
  that returns its input.\<close>

definition example_config :: config where
  "example_config =
     \<lparr>cfg_features_in = 1, cfg_features_out = 5, cfg_num_filtrations = 1,
      cfg_num_coord_funs = 1, cfg_filtration_hidden = 1, cfg_num_coord_funs1 = 1,
      cfg_dim1 = True, cfg_residual_and_bn = True, cfg_share_filtration_parameters = True,
      cfg_fake = False, cfg_tanh_filtrations = False, cfg_swap_bn_order = False,
      cfg_dist_dim1 = False\<rparr>"

definition example_params :: params where
  "example_params =
     \<lparr>filtration_params = (\<lambda>k. ((\<lambda>i j. 1, \<lambda>i. 0), (\<lambda>i j. 1, \<lambda>i. 0))),
      coord_params = (\<lambda>name k p. fst p + 2 * snd p),
      coord_params1 = (\<lambda>name k p. fst p + 2 * snd p),
      out_params = (\<lambda>i j. 1, \<lambda>i. 0),
      out1_params = (\<lambda>i j. 1, \<lambda>i. 0),
      bn_params = (\<lambda>inp. False, \<lambda>inp i j. inp ! i ! j)\<rparr>"

text \<open>The layer the constructor builds from them, written out.\<close>

definition example_coord_fun :: coord_fun where
  "example_coord_fun = \<lparr>output_dim = 1, coord = (\<lambda>k p. fst p + 2 * snd p)\<rparr>"

definition example_layer :: layer where
  "example_layer =
     \<lparr>dim1 = True, features_in = 1, features_out = 5, num_filtrations = 1,
      filtration_hidden = 1, residual_and_bn = True, share_filtration_parameters = True,
      fake = False, swap_bn_order = False, dist_dim1 = False, total_num_coord_funs = 4,
      coord_fun_modules =
        [example_coord_fun, example_coord_fun, example_coord_fun, example_coord_fun],
      coord_fun_modules1 =
        Some [example_coord_fun, example_coord_fun, example_coord_fun, example_coord_fun],
      filtration_modules =
        Sequential \<lparr>lin1 = \<lparr>in_features = 1, weight = [[1]], bias = [0]\<rparr>,
                    lin2 = \<lparr>in_features = 1, weight = [[1]], bias = [0]\<rparr>,
                    final_activation = (\<lambda>v. v)\<rparr>,
      bn = Some \<lparr>num_features = 1, bn_raises = (\<lambda>inp. False),
                 bn_value = (\<lambda>inp i j. inp ! i ! j)\<rparr>,
      out1 = None,
      out = \<lparr>in_features = 4, weight = [[1, 1, 1, 1]], bias = [0]\<rparr>\<rparr>"

text \<open>The layer the constructor builds when the distinct dim1 head is switched on as
  well (\<open>dist_dim1=True\<close>): it has the second projection \<open>out1\<close>.\<close>

definition example_layer_dist :: layer where
  "example_layer_dist =
     example_layer\<lparr>dist_dim1 := True,
       out1 := Some \<lparr>in_features = 4, weight = [[1, 1, 1, 1]], bias = [0]\<rparr>\<rparr>"

text \<open>The functions outside the two files for concrete runs: the engine and the removal
  as modelled from the specification. The examples never set \<open>fake\<close>, so the stand-in for
  fake_persistence_computation is never reached.\<close>

definition example_ext :: externals where
  "example_ext =
     \<lparr>compute_persistence_homology_batched_mt = persistence_engine,
      fake_persistence_computation = (\<lambda>fv ei vs es bi. Inl RuntimeError),
      data_utils_remove_duplicate_edges = spec_remove_duplicate_edges\<rparr>"

text \<open>One graph with two vertices and the two directions of its edge.\<close>

definition example_x :: matrix where
  "example_x = [[0], [1]]"

definition example_batch :: batch where
  "example_batch =
     \<lparr>batch_x = [[0], [1]], batch_edge_index = [(0, 1), (1, 0)], batch_batch = [0, 0],
      slices_x = [0, 2], slices_edge_index = [0, 2]\<rparr>"

text \<open>A store with one batch at reference 4: two vertices, the two directions of one
  edge.\<close>

definition example_heap :: heap where
  "example_heap =
     \<lparr>cells = [0 \<mapsto> FloatTensor [[0], [1]], 1 \<mapsto> EdgeTensor [(0, 1), (1, 0)],
               2 \<mapsto> LongTensor [0, 0],
               3 \<mapsto> SlicesDict [''x'' \<mapsto> [0, 2], ''edge_index'' \<mapsto> [0, 2]],
               4 \<mapsto> BatchObj 0 1 2 3],
      next_ref = 5\<rparr>"

section \<open>Properties of the edge filtration\<close>

lemma index_rows_ok:
  "\<forall>i\<in>set is. - int (length xs) \<le> i \<and> i < int (length xs) \<Longrightarrow>
   \<exists>rs. index_rows xs is = Inr rs \<and> length rs = length is \<and>
     (\<forall>k<length is. rs ! k = xs ! nat (if is ! k < 0 then int (length xs) + is ! k else is ! k))"
proof (induction "is")
  case Nil then show ?case by simp
next
  case (Cons i "is")
  then obtain rs where rs: "index_rows xs is = Inr rs" "length rs = length is"
    "\<forall>k<length is. rs ! k = xs ! nat (if is ! k < 0 then int (length xs) + is ! k else is ! k)"
    by auto
  from Cons.prems have i: "- int (length xs) \<le> i" "i < int (length xs)" by auto
  have g: "getitem xs i = Inr (xs ! nat (if i < 0 then int (length xs) + i else i))"
    using i by (auto simp: getitem_def)
  show ?case using rs g by (auto simp: nth_Cons split: nat.splits)
qed

text \<open>
  C1. When every endpoint index is accepted by the tensor indexing, compute_persistence
  obtains an edge filtration with one row per edge, and for every edge whose endpoints
  lie in the range 0..N-1 of the vertex filtration array and every channel f the value is
  the larger of the two endpoint values of that channel.
\<close>

theorem filtered_e_is_endpoint_max:
  assumes shape: "is_matrix F fv"
    and valid: "\<forall>p\<in>set ei. - int (length fv) \<le> fst p \<and> fst p < int (length fv)
                  \<and> - int (length fv) \<le> snd p \<and> snd p < int (length fv)"
  shows "\<exists>fe. filtered_e fv ei = Inr fe \<and> length fe = length ei \<and>
           (\<forall>e<length ei. \<forall>f<F. 0 \<le> fst (ei ! e) \<and> 0 \<le> snd (ei ! e) \<longrightarrow>
              fe ! e ! f = max (fv ! nat (fst (ei ! e)) ! f) (fv ! nat (snd (ei ! e)) ! f))"
proof -
  have v0: "\<forall>i\<in>set (row0 ei). - int (length fv) \<le> i \<and> i < int (length fv)"
    using valid by (auto simp: row0_def)
  have v1: "\<forall>i\<in>set (row1 ei). - int (length fv) \<le> i \<and> i < int (length fv)"
    using valid by (auto simp: row1_def)
  obtain a where a: "index_rows fv (row0 ei) = Inr a" "length a = length ei"
    "\<forall>k<length ei. a ! k = fv ! nat (if row0 ei ! k < 0 then int (length fv) + row0 ei ! k else row0 ei ! k)"
    using index_rows_ok[OF v0] by (auto simp: row0_def)
  obtain b where b: "index_rows fv (row1 ei) = Inr b" "length b = length ei"
    "\<forall>k<length ei. b ! k = fv ! nat (if row1 ei ! k < 0 then int (length fv) + row1 ei ! k else row1 ei ! k)"
    using index_rows_ok[OF v1] by (auto simp: row1_def)
  have res: "filtered_e fv ei = Inr (map2 (map2 max) a b)"
    by (simp add: filtered_e_def a b)
  have len: "length (map2 (map2 max) a b) = length ei" using a b by simp
  have vals: "(map2 (map2 max) a b) ! e ! f = max (fv ! nat (fst (ei ! e)) ! f) (fv ! nat (snd (ei ! e)) ! f)"
    if e: "e < length ei" and f: "f < F" and nn: "0 \<le> fst (ei ! e)" "0 \<le> snd (ei ! e)" for e f
  proof -
    have "fst (ei ! e) < int (length fv)" "snd (ei ! e) < int (length fv)"
      using valid nth_mem[OF e] by blast+
    then have u: "nat (fst (ei ! e)) < length fv" and v: "nat (snd (ei ! e)) < length fv"
      using nn by linarith+
    have ae: "a ! e = fv ! nat (fst (ei ! e))" using a e nn by (simp add: row0_def)
    have be: "b ! e = fv ! nat (snd (ei ! e))" using b e nn by (simp add: row1_def)
    have la: "length (a ! e) = F" using shape u ae by (simp add: is_matrix_def list_all_length)
    have lb: "length (b ! e) = F" using shape v be by (simp add: is_matrix_def list_all_length)
    show ?thesis using e a b la lb f ae be by simp
  qed
  show ?thesis using res len vals by blast
qed

theorem filtered_e_is_endpoint_max_witness:
  "\<exists>fe. filtered_e [[1, 5], [2, 3], [0, 9]] [(0, 1), (1, 2)] = Inr fe \<and> length fe = 2 \<and>
      fe ! 0 ! 0 = 2 \<and> fe ! 0 ! 1 = 5 \<and> fe ! 1 ! 0 = 2 \<and> fe ! 1 ! 1 = 9"
proof -
  let ?fv = "[[1, 5], [2, 3], [0, 9]] :: matrix"
  let ?ei = "[(0, 1), (1, 2)] :: edge_index"
  have s: "is_matrix 2 ?fv" by (simp add: is_matrix_def)
  have v: "\<forall>p\<in>set ?ei. - int (length ?fv) \<le> fst p \<and> fst p < int (length ?fv)
      \<and> - int (length ?fv) \<le> snd p \<and> snd p < int (length ?fv)"
    by simp
  from filtered_e_is_endpoint_max[OF s v] obtain fe where
    fe: "filtered_e ?fv ?ei = Inr fe" "length fe = length ?ei"
    and vals: "\<forall>e<length ?ei. \<forall>f<2. 0 \<le> fst (?ei ! e) \<and> 0 \<le> snd (?ei ! e) \<longrightarrow>
              fe ! e ! f = max (?fv ! nat (fst (?ei ! e)) ! f) (?fv ! nat (snd (?ei ! e)) ! f)"
    by blast
  have "fe ! 0 ! 0 = 2" using vals[rule_format, of 0 0] by simp
  moreover have "fe ! 0 ! 1 = 5" using vals[rule_format, of 0 1] by simp
  moreover have "fe ! 1 ! 0 = 2" using vals[rule_format, of 1 0] by simp
  moreover have "fe ! 1 ! 1 = 9" using vals[rule_format, of 1 1] by simp
  ultimately show ?thesis using fe by simp
qed

section \<open>Properties of the aggregation of the dim1 features\<close>

lemma collect_map:
  "(\<And>x. x \<in> set xs \<Longrightarrow> f x = Inr (g x)) \<Longrightarrow> collect f xs = Inr (map g xs)"
  by (induction xs) auto

lemma slice_bound_nonneg: "0 \<le> i \<Longrightarrow> i \<le> int n \<Longrightarrow> slice_bound n i = nat i"
  by (auto simp: slice_bound_def)

lemma take_drop_nth_upt:
  "i \<le> j \<Longrightarrow> j \<le> length xs \<Longrightarrow> take (j - i) (drop i xs) = map ((!) xs) [i..<j]"
proof -
  assume ij: "i \<le> j" "j \<le> length xs"
  have "take (j - i) (drop i xs) = take (j - i) (drop i (map ((!) xs) [0..<length xs]))"
    by (simp add: map_nth)
  also have "\<dots> = map ((!) xs) (take (j - i) (drop i [0..<length xs]))"
    by (simp add: take_map drop_map)
  also have "take (j - i) (drop i [0..<length xs]) = [i..<j]"
    using ij by (simp add: drop_upt take_upt)
  finally show ?thesis .
qed

lemma py_slice_in_range:
  "0 \<le> a \<Longrightarrow> a \<le> b \<Longrightarrow> b \<le> int (length xs) \<Longrightarrow>
   py_slice xs a b = map ((!) xs) [nat a..<nat b]"
  by (simp add: py_slice_def slice_bound_nonneg take_drop_nth_upt nat_mono)

lemma mask_select_nth:
  "mask_select (map ((!) xs) ks) (map ((!) m) ks) = Inr (map ((!) xs) (filter ((!) m) ks))"
  by (induction ks) (auto simp: mask_select_def)

lemma collapse_el_in_range:
  assumes "length activations = E" "length msk = E"
    and "0 \<le> slices ! el" "slices ! el \<le> slices ! (el + 1)" "slices ! (el + 1) \<le> int E"
  shows "collapse_el d activations msk slices el =
     Inr (sum_axis0 d (map ((!) activations)
        (filter ((!) msk) [nat (slices ! el)..<nat (slices ! (el + 1))])))"
  using assms by (simp add: collapse_el_def py_slice_in_range mask_select_nth)

lemma collapse_dim1_in_range:
  assumes len: "length activations = E" "length msk = E"
    and offs: "sorted slices" "list_all (\<lambda>s. 0 \<le> s \<and> s \<le> int E) slices"
    and g: "g + 1 < length slices"
  shows "\<exists>rs. collapse_dim1 d activations msk slices = Inr rs \<and> length rs = length slices - 1 \<and>
     rs ! g = sum_axis0 d (map ((!) activations)
        (filter ((!) msk) [nat (slices ! g)..<nat (slices ! (g + 1))]))"
proof -
  let ?row = "\<lambda>el. sum_axis0 d (map ((!) activations)
        (filter ((!) msk) [nat (slices ! el)..<nat (slices ! (el + 1))]))"
  have each: "collapse_el d activations msk slices el = Inr (?row el)"
    if "el \<in> set [0..<length slices - 1]" for el
  proof -
    from that have el: "el + 1 < length slices" by auto
    have "0 \<le> slices ! el" "slices ! (el + 1) \<le> int E"
      using offs(2) el by (auto simp: list_all_length)
    moreover have "slices ! el \<le> slices ! (el + 1)"
      using offs(1) el by (simp add: sorted_nth_mono)
    ultimately show ?thesis using len by (simp add: collapse_el_in_range)
  qed
  have c: "collect (collapse_el d activations msk slices) [0..<length slices - 1]
      = Inr (map ?row [0..<length slices - 1])"
    by (rule collect_map) (rule each)
  have ne: "map ?row [0..<length slices - 1] \<noteq> []" using g by simp
  have "collapse_dim1 d activations msk slices = Inr (map ?row [0..<length slices - 1])"
    unfolding collapse_dim1_def c using ne by (simp add: torch_stack_def)
  moreover have "[0..<length slices - 1] ! g = g" using g by (simp add: nth_upt less_diff_conv)
  then have "map ?row [0..<length slices - 1] ! g = ?row g" using g by simp
  ultimately show ?thesis by simp
qed

lemma py_slice_stop_zero: "py_slice xs s 0 = []"
  by (simp add: py_slice_def slice_bound_def)

lemma torch_cat1_rows:
  assumes "ts \<noteq> []" "list_all (\<lambda>t. length t = n) ts"
  shows "torch_cat1 ts = Inr (map (\<lambda>i. concat (map (\<lambda>t. t ! i) ts)) [0..<n])"
  using assms by (cases ts) (auto simp: torch_cat1_def list_all_iff)

lemma compute_coord_fun1_rows:
  assumes "coord_fun_modules1 L = Some mods" "mods \<noteq> []"
  shows "compute_coord_fun L persistence True =
     Inr (map (\<lambda>i. concat (map (\<lambda>m. coord_forward m persistence ! i) mods))
            [0..<length persistence])"
proof -
  have "list_all (\<lambda>t. length t = length persistence) (map (\<lambda>m. coord_forward m persistence) mods)"
    by (simp add: list_all_iff coord_forward_def)
  with assms show ?thesis
    by (simp add: compute_coord_fun_def torch_cat1_rows o_def)
qed

lemma sum_axis0_nth:
  "length (sum_axis0 d rs) = d"
  "j < d \<Longrightarrow> sum_axis0 d rs ! j = sum_list (map (\<lambda>r. r ! j) rs)"
  by (simp_all add: sum_axis0_def)

lemma compute_coord_activations1_nth:
  assumes mods: "coord_fun_modules1 L = Some mods" "mods \<noteq> []"
    and shape: "persistences1 \<noteq> []" "list_all (\<lambda>ch. length ch = E) persistences1"
  shows "\<exists>ca1. compute_coord_activations L persistences1 True = Inr ca1 \<and> length ca1 = E
     \<and> (\<forall>e<E. ca1 ! e =
          concat (map (\<lambda>ch. concat (map (\<lambda>m. map (\<lambda>k. coord m k (ch ! e)) [0..<output_dim m])
                                     mods)) persistences1))"
proof -
  let ?g = "\<lambda>persistence. map (\<lambda>i. concat (map (\<lambda>m. coord_forward m persistence ! i) mods))
            [0..<length persistence]"
  have c: "collect (\<lambda>persistence. compute_coord_fun L persistence True) persistences1
      = Inr (map ?g persistences1)"
    by (rule collect_map) (simp add: compute_coord_fun1_rows[OF mods])
  have all: "list_all (\<lambda>t. length t = E) (map ?g persistences1)"
    using shape(2) by (simp add: list_all_iff)
  have ne: "map ?g persistences1 \<noteq> []" using shape(1) by simp
  let ?ca = "map (\<lambda>i. concat (map (\<lambda>t. t ! i) (map ?g persistences1))) [0..<E]"
  have res: "compute_coord_activations L persistences1 True = Inr ?ca"
    unfolding compute_coord_activations_def c by (simp add: torch_cat1_rows[OF ne all])
  have row: "?ca ! e =
      concat (map (\<lambda>ch. concat (map (\<lambda>m. map (\<lambda>k. coord m k (ch ! e)) [0..<output_dim m])
                                     mods)) persistences1)"
    if e: "e < E" for e
  proof -
    have each: "?g ch ! e = concat (map (\<lambda>m. map (\<lambda>k. coord m k (ch ! e)) [0..<output_dim m]) mods)"
      if "ch \<in> set persistences1" for ch
    proof -
      from that have l: "length ch = E" using shape(2) by (simp add: list_all_iff)
      show ?thesis using e l by (simp add: coord_forward_def)
    qed
    have "?ca ! e = concat (map (\<lambda>ch. ?g ch ! e) persistences1)"
      using e by (simp add: o_def)
    also have "map (\<lambda>ch. ?g ch ! e) persistences1
        = map (\<lambda>ch. concat (map (\<lambda>m. map (\<lambda>k. coord m k (ch ! e)) [0..<output_dim m]) mods))
            persistences1"
      by (rule map_cong[OF refl]) (rule each)
    finally show ?thesis .
  qed
  from res row show ?thesis by (intro exI[of _ ?ca]) simp
qed

lemma persistence1_mask_nth:
  assumes "persistences1 \<noteq> []" "list_all (\<lambda>ch. length ch = E) persistences1"
  shows "length (persistence1_mask persistences1) = E"
    and "e < E \<Longrightarrow> persistence1_mask persistences1 ! e \<longleftrightarrow>
      (\<exists>f<length persistences1. fst (persistences1 ! f ! e) \<noteq> 0 \<or> snd (persistences1 ! f ! e) \<noteq> 0)"
proof -
  obtain p ps where pp: "persistences1 = p # ps" using assms(1) by (cases persistences1) auto
  then have lp: "length p = E" using assms(2) by simp
  show "length (persistence1_mask persistences1) = E"
    by (simp add: persistence1_mask_def pp lp)
  assume e: "e < E"
  have "persistence1_mask persistences1 ! e \<longleftrightarrow>
      list_ex (\<lambda>ch. fst (ch ! e) \<noteq> 0 \<or> snd (ch ! e) \<noteq> 0) persistences1"
    using e lp by (simp add: persistence1_mask_def pp)
  then show "persistence1_mask persistences1 ! e \<longleftrightarrow>
      (\<exists>f<length persistences1. fst (persistences1 ! f ! e) \<noteq> 0 \<or> snd (persistences1 ! f ! e) \<noteq> 0)"
    by (simp add: list_ex_length)
qed

lemma init_flags:
  "dim1 (TopologyLayer_init c p) = cfg_dim1 c"
  "residual_and_bn (TopologyLayer_init c p) = cfg_residual_and_bn c"
  "dist_dim1 (TopologyLayer_init c p) = cfg_dist_dim1 c"
  "swap_bn_order (TopologyLayer_init c p) = cfg_swap_bn_order c"
  "fake (TopologyLayer_init c p) = cfg_fake c"
  "share_filtration_parameters (TopologyLayer_init c p) = cfg_share_filtration_parameters c"
  by (simp_all add: TopologyLayer_init_def Let_def)

lemma init_coord_fun_modules1:
  "coord_fun_modules1 (TopologyLayer_init c p) =
     (if cfg_dim1 c
      then Some (map (\<lambda>key. \<lparr>output_dim = cfg_num_coord_funs1 c, coord = coord_params1 p key\<rparr>)
                   transform_names)
      else None)"
  by (simp add: TopologyLayer_init_def Let_def)

lemma example_layer_init: "TopologyLayer_init example_config example_params = example_layer"
  by (simp add: TopologyLayer_init_def example_config_def example_params_def example_layer_def
      example_coord_fun_def transform_names_def filtration_mlp_def Linear_def Let_def)

lemma example_layer_dist_init:
  "TopologyLayer_init (example_config\<lparr>cfg_dist_dim1 := True\<rparr>) example_params = example_layer_dist"
  by (simp add: TopologyLayer_init_def example_config_def example_params_def example_layer_def
      example_layer_dist_def example_coord_fun_def transform_names_def filtration_mlp_def
      Linear_def Let_def)

lemma example_layer_dim1: "dim1 example_layer"
  by (simp add: example_layer_def)

lemma example_layer_modules1:
  "coord_fun_modules1 example_layer =
     Some (map (\<lambda>key. \<lparr>output_dim = 1, coord = (\<lambda>k p. fst p + 2 * snd p)\<rparr>) transform_names)"
  by (simp add: example_layer_def example_coord_fun_def transform_names_def)

text \<open>
  C3. For offsets that are nondecreasing and within the number E of edges, and a dim1
  persistence tensor of shape [F, E, 2] with F > 0, the dim1 branch of forward of models.py
  returns one row per graph. Entry j of row g is the sum, over the edges e of graph g (the
  positions from slices[g] up to slices[g+1]) whose pair has a nonzero birth or death in
  some channel, of entry j of the dim1 coordinate features of e. The coordinate features
  of edge e are the values of the dim1 coordinate functions on the pair of e, channel by
  channel. (forward of topolayer.py calls collapse_dim1 with offsets of one entry only,
  the case of C4.)
\<close>

theorem graph_activations1_rows:
  assumes d1: "dim1 L"
    and mods: "coord_fun_modules1 L = Some mods" "mods \<noteq> []"
    and shape: "persistences1 \<noteq> []" "list_all (\<lambda>ch. length ch = E) persistences1"
    and offs: "sorted slices" "list_all (\<lambda>s. 0 \<le> s \<and> s \<le> int E) slices"
    and g: "g + 1 < length slices"
  shows "\<exists>ca1 rs. compute_coord_activations L persistences1 True = Inr ca1
     \<and> length ca1 = E
     \<and> (\<forall>e<E. ca1 ! e =
          concat (map (\<lambda>ch. concat (map (\<lambda>m. map (\<lambda>k. coord m k (ch ! e)) [0..<output_dim m])
                                     mods)) persistences1))
     \<and> graph_activations1_of collapse_dim1 L persistences1 slices = Inr (Some rs)
     \<and> length rs = length slices - 1
     \<and> length (rs ! g) = length persistences1 * sum_list (map output_dim mods)
     \<and> (\<forall>j<length (rs ! g). rs ! g ! j =
          sum_list (map (\<lambda>e. ca1 ! e ! j)
            (filter (\<lambda>e. \<exists>f<length persistences1.
                        fst (persistences1 ! f ! e) \<noteq> 0 \<or> snd (persistences1 ! f ! e) \<noteq> 0)
               [nat (slices ! g)..<nat (slices ! (g + 1))])))"
proof -
  let ?d = "coord_width1 L persistences1"
  let ?m = "persistence1_mask persistences1"
  let ?flag = "\<lambda>e. \<exists>f<length persistences1.
                  fst (persistences1 ! f ! e) \<noteq> 0 \<or> snd (persistences1 ! f ! e) \<noteq> 0"
  let ?es = "[nat (slices ! g)..<nat (slices ! (g + 1))]"
  obtain ca1 where ca1: "compute_coord_activations L persistences1 True = Inr ca1"
    "length ca1 = E"
    and rows: "\<forall>e<E. ca1 ! e =
          concat (map (\<lambda>ch. concat (map (\<lambda>m. map (\<lambda>k. coord m k (ch ! e)) [0..<output_dim m])
                                     mods)) persistences1)"
    using compute_coord_activations1_nth[OF mods shape] by blast
  have lm: "length ?m = E"
    by (rule persistence1_mask_nth(1)[OF shape])
  obtain rs where rs: "collapse_dim1 ?d ca1 ?m slices = Inr rs"
    "length rs = length slices - 1"
    "rs ! g = sum_axis0 ?d (map ((!) ca1) (filter ((!) ?m) ?es))"
    using collapse_dim1_in_range[OF ca1(2) lm offs g] by blast
  have a: "graph_activations1_of collapse_dim1 L persistences1 slices = Inr (Some rs)"
    by (simp add: graph_activations1_of_def d1 ca1 rs)
  have d: "?d = length persistences1 * sum_list (map output_dim mods)"
    by (simp add: coord_width1_def mods)
  have up: "slices ! (g + 1) \<le> int E"
    using offs(2) g by (simp add: list_all_length)
  have flt: "filter ((!) ?m) ?es = filter ?flag ?es"
  proof (rule filter_cong[OF refl])
    fix e assume "e \<in> set ?es"
    then have "e < E" using up by auto
    then show "?m ! e = ?flag e" by (rule persistence1_mask_nth(2)[OF shape])
  qed
  have len: "length (rs ! g) = length persistences1 * sum_list (map output_dim mods)"
    by (simp add: rs(3) sum_axis0_nth(1) d)
  have ent: "rs ! g ! j = sum_list (map (\<lambda>e. ca1 ! e ! j) (filter ?flag ?es))"
    if "j < length (rs ! g)" for j
  proof -
    from that have "j < ?d" by (simp add: rs(3) sum_axis0_nth(1))
    then have "rs ! g ! j = sum_list (map (\<lambda>r. r ! j) (map ((!) ca1) (filter ((!) ?m) ?es)))"
      by (simp only: rs(3) sum_axis0_nth(2))
    also have "\<dots> = sum_list (map (\<lambda>e. ca1 ! e ! j) (filter ?flag ?es))"
      by (simp only: flt map_map o_def)
    finally show ?thesis .
  qed
  show ?thesis
    using ca1 rows a rs(2) len ent by blast
qed

theorem graph_activations1_rows_witness:
  "\<exists>rs. compute_coord_activations example_layer [[(0, 0), (1, 2), (0, 3)]] True
          = Inr [[0, 0, 0, 0], [5, 5, 5, 5], [6, 6, 6, 6]]
     \<and> graph_activations1_of collapse_dim1 example_layer [[(0, 0), (1, 2), (0, 3)]] [0, 1, 3]
          = Inr (Some rs)
     \<and> length rs = 2
     \<and> rs ! 1 = [11, 11, 11, 11]"
proof -
  let ?p = "[[(0, 0), (1, 2), (0, 3)]] :: pairs"
  let ?mods = "map (\<lambda>key. \<lparr>output_dim = 1, coord = (\<lambda>k p. fst p + 2 * snd p)\<rparr>) transform_names"
  have h1: "?mods \<noteq> []" by (simp add: transform_names_def)
  have h2: "?p \<noteq> []" by simp
  have h3: "list_all (\<lambda>ch. length ch = 3) ?p" by simp
  have h4: "sorted [0, 1, 3 :: int]" by simp
  have h5: "list_all (\<lambda>s. 0 \<le> s \<and> s \<le> int 3) [0, 1, 3]" by simp
  have h6: "1 + 1 < length [0, 1, 3 :: int]" by simp
  have w: "length ?p * sum_list (map output_dim ?mods) = 4"
    by (simp add: transform_names_def)
  have m: "filter (\<lambda>e. \<exists>f<length ?p. fst (?p ! f ! e) \<noteq> 0 \<or> snd (?p ! f ! e) \<noteq> 0)
      [nat ([0, 1, 3] ! 1)..<nat ([0, 1, 3] ! (1 + 1))] = [1, 2]"
    by (simp add: upt_rec)
  obtain ca1 rs where
    ca: "compute_coord_activations example_layer ?p True = Inr ca1"
    and lc: "length ca1 = 3"
    and rows: "\<forall>e<3. ca1 ! e = concat (map (\<lambda>ch. concat (map (\<lambda>m. map (\<lambda>k. coord m k (ch ! e))
                 [0..<output_dim m]) ?mods)) ?p)"
    and ga: "graph_activations1_of collapse_dim1 example_layer ?p [0, 1, 3] = Inr (Some rs)"
    and lr: "length rs = length [0, 1, 3 :: int] - 1"
    and l1: "length (rs ! 1) = length ?p * sum_list (map output_dim ?mods)"
    and en: "\<forall>j<length (rs ! 1). rs ! 1 ! j = sum_list (map (\<lambda>e. ca1 ! e ! j)
        (filter (\<lambda>e. \<exists>f<length ?p. fst (?p ! f ! e) \<noteq> 0 \<or> snd (?p ! f ! e) \<noteq> 0)
           [nat ([0, 1, 3] ! 1)..<nat ([0, 1, 3] ! (1 + 1))]))"
    using graph_activations1_rows[OF example_layer_dim1 example_layer_modules1 h1 h2 h3 h4 h5 h6]
    by (elim exE conjE) (rule that)
  have c1: "ca1 ! 1 = [5, 5, 5, 5]"
    using rows[rule_format, of 1] by (simp add: transform_names_def)
  have c2: "ca1 ! 2 = [6, 6, 6, 6]"
    using rows[rule_format, of 2] by (simp add: transform_names_def)
  have l4: "length (rs ! 1) = 4" unfolding l1 w by (rule refl)
  have en': "rs ! 1 ! j = ca1 ! 1 ! j + ca1 ! 2 ! j" if "j < 4" for j
    using en[unfolded m l4, rule_format, OF that] by simp
  have cv: "compute_coord_activations example_layer ?p True
      = Inr [[0, 0, 0, 0], [5, 5, 5, 5], [6, 6, 6, 6]]"
    by code_simp
  have r1: "rs ! 1 = [11, 11, 11, 11]"
  proof (rule nth_equalityI)
    show "length (rs ! 1) = length [11, 11, 11, 11 :: real]" using l4 by simp
    fix j assume "j < length (rs ! 1)"
    then have j: "j < 4" using l4 by simp
    then have v: "rs ! 1 ! j = [5, 5, 5, 5] ! j + [6, 6, 6, 6] ! j"
      using en'[of j] unfolding c1 c2 by simp
    from j have "j = 0 \<or> j = 1 \<or> j = 2 \<or> j = 3" by arith
    then show "rs ! 1 ! j = [11, 11, 11, 11] ! j"
      using v by auto
  qed
  from cv ga lr r1 show ?thesis by simp
qed


text \<open>
  C4. collapse_dim1 of topolayer.py on an offsets tensor of length 1: the offsets are
  extended to [s, 0], so the only slice taken is \<open>[s:0]\<close>, which is empty, and the single
  row returned is the zero row whatever the activations and the mask are. It is not the
  sum of the rows the mask selects.
\<close>

theorem collapse_dim1_topolayer_single_offset:
  "collapse_dim1_topolayer d activations msk [s] = Inr [replicate d 0]"
proof -
  have "sum_axis0 d [] = replicate d 0"
    by (simp add: sum_axis0_def map_replicate_const)
  then show ?thesis
    by (simp add: collapse_dim1_topolayer_def collapse_el_def py_slice_stop_zero
        mask_select_def torch_stack_def)
qed

text \<open>One activation row [1] that the mask selects: the code returns [0], the sum of the
  selected rows is [1].\<close>

theorem collapse_dim1_topolayer_single_offset_example:
  "collapse_dim1_topolayer 1 [[1]] [True] [1] = Inr [[0]] \<and>
   sum_axis0 1 (map fst (filter snd (zip [[1]] [True]))) = [1]"
  by (simp add: collapse_dim1_topolayer_def collapse_el_def py_slice_def slice_bound_def
      mask_select_def torch_stack_def sum_axis0_def)

section \<open>Properties of the offsets built without a batch\<close>

text \<open>
  C8. With \<open>batch=None\<close>, compute_persistence of topolayer.py passes on the vertex offsets
  [N] and the edge offsets [2], whatever the number E of edges is. The edge offsets never
  satisfy the invariant of packed batches (their first entry is 2), and the vertex
  offsets satisfy it only for N = 0.
\<close>

theorem single_graph_slices_not_packed:
  "single_graph_slices x ei = ([int (length x)], [2])
   \<and> \<not> packed_offsets (snd (single_graph_slices x ei)) (int (length ei))
   \<and> (packed_offsets (fst (single_graph_slices x ei)) (int (length x)) \<longleftrightarrow> x = [])"
  by (auto simp: single_graph_slices_def edge_index_shape0_def packed_offsets_def)

text \<open>The input of the \<open>__main__\<close> block of topolayer.py: three vertices, four edges.\<close>

theorem single_graph_slices_main_example:
  "single_graph_slices [[-1], [0], [1]] [(0, 1), (1, 0), (1, 2), (2, 1)] = ([3], [2])
   \<and> \<not> packed_offsets [3] 3 \<and> \<not> packed_offsets [2] 4"
  by (simp add: single_graph_slices_def edge_index_shape0_def packed_offsets_def)

section \<open>Properties of remove_duplicate_edges\<close>

lemma blocks_Nil: "blocks a [] = []"
  by (simp add: blocks_def)

lemma blocks_Cons: "blocks a (d # ds) = replicate (nat d) a @ blocks (Suc a) ds"
proof -
  have "[a..<a + length (d # ds)] = a # [Suc a..<Suc a + length ds]"
    by (simp add: upt_conv_Cons del: upt_Suc)
  then show ?thesis by (simp add: blocks_def del: upt_Suc)
qed

lemma blocks_range: "i \<in> set (blocks a ds) \<Longrightarrow> a \<le> i \<and> i < a + length ds"
  by (induction ds arbitrary: a) (fastforce simp: blocks_Nil blocks_Cons)+

lemma blocks_member: "j < length ds \<Longrightarrow> 0 < ds ! j \<Longrightarrow> a + j \<in> set (blocks a ds)"
proof (induction ds arbitrary: a j)
  case Nil then show ?case by simp
next
  case (Cons d ds)
  show ?case
  proof (cases j)
    case 0 with Cons.prems show ?thesis by (simp add: blocks_Cons)
  next
    case (Suc j')
    with Cons.prems have "Suc a + j' \<in> set (blocks (Suc a) ds)"
      by (intro Cons.IH) auto
    with Suc show ?thesis by (simp add: blocks_Cons)
  qed
qed

lemma length_blocks: "length (blocks a ds) = sum_list (map nat ds)"
  by (induction ds arbitrary: a) (simp_all add: blocks_Nil blocks_Cons)

lemma filter_zip_replicate_same:
  "k \<le> length src \<Longrightarrow>
   map fst (filter (\<lambda>(v, i). i = a) (zip (take k src) (replicate k a))) = take k src"
proof (induction k arbitrary: src)
  case 0 then show ?case by simp
next
  case (Suc k)
  then obtain x xs where "src = x # xs" by (cases src) auto
  with Suc show ?case by simp
qed

lemma filter_zip_none:
  "(\<And>i. i \<in> set idx \<Longrightarrow> i \<noteq> g) \<Longrightarrow> filter (\<lambda>(v, i). i = g) (zip src idx) = []"
  by (auto simp: filter_empty_conv dest: set_zip_rightD)

lemma scatter_block:
  "length src = sum_list (map nat ds) \<Longrightarrow> j < length ds \<Longrightarrow>
   sum_list (map fst (filter (\<lambda>(v, i). i = a + j) (zip src (blocks a ds))))
     = sum_list (take (nat (ds ! j)) (drop (sum_list (map nat (take j ds))) src))"
proof (induction ds arbitrary: a src j)
  case Nil then show ?case by simp
next
  case (Cons d ds)
  have split: "zip src (blocks a (d # ds))
      = zip (take (nat d) src) (replicate (nat d) a) @ zip (drop (nat d) src) (blocks (Suc a) ds)"
    by (simp add: blocks_Cons zip_append2)
  have le: "nat d \<le> length src" using Cons.prems by simp
  show ?case
  proof (cases j)
    case 0
    have "filter (\<lambda>(v, i). i = a) (zip (drop (nat d) src) (blocks (Suc a) ds)) = []"
      by (rule filter_zip_none) (use blocks_range in fastforce)
    then show ?thesis
      using 0 le by (simp add: split filter_zip_replicate_same)
  next
    case (Suc j')
    have "filter (\<lambda>(v, i). i = a + j) (zip (take (nat d) src) (replicate (nat d) a)) = []"
      by (rule filter_zip_none) (use Suc in auto)
    moreover have "sum_list (map fst (filter (\<lambda>(v, i). i = Suc a + j')
          (zip (drop (nat d) src) (blocks (Suc a) ds))))
       = sum_list (take (nat (ds ! j')) (drop (sum_list (map nat (take j' ds))) (drop (nat d) src)))"
      using Cons.prems Suc by (intro Cons.IH) auto
    ultimately show ?thesis using Suc by (simp add: split add.commute)
  qed
qed

lemma foldr_max_ge: "x \<in> set xs \<Longrightarrow> x \<le> foldr max xs (0::nat)"
  by (induction xs) auto

lemma foldr_max_le: "(\<And>x. x \<in> set xs \<Longrightarrow> x \<le> m) \<Longrightarrow> foldr max xs (0::nat) \<le> m"
  by (induction xs) auto

lemma scatter_size_blocks:
  assumes "ds \<noteq> []" "0 < last ds"
  shows "scatter_size (blocks 0 ds) = length ds"
proof -
  have m: "0 + (length ds - 1) \<in> set (blocks 0 ds)"
    using assms by (intro blocks_member) (auto simp: last_conv_nth)
  then have ne: "blocks 0 ds \<noteq> []" by auto
  have "foldr max (blocks 0 ds) 0 \<le> length ds - 1"
    by (rule foldr_max_le) (use blocks_range[of _ 0 ds] in fastforce)
  moreover have "length ds - 1 \<le> foldr max (blocks 0 ds) 0"
    using foldr_max_ge[OF m] by simp
  ultimately have "foldr max (blocks 0 ds) 0 = length ds - 1" by simp
  moreover have "0 < length ds" using assms(1) by simp
  ultimately show ?thesis using ne by (simp add: scatter_size_def)
qed

lemma cumsum_from_length: "length (cumsum_from acc vs) = length vs"
  by (induction vs arbitrary: acc) auto

lemma cumsum_from_nth:
  "g < length vs \<Longrightarrow> cumsum_from acc vs ! g = acc + sum_list (take (Suc g) vs)"
proof (induction vs arbitrary: acc g)
  case Nil then show ?case by simp
next
  case (Cons v vs)
  then show ?case by (cases g) (auto simp: add.assoc)
qed

lemma kept_edges:
  "map fst (filter snd (zip ei (map2 (\<le>) (row0 ei) (row1 ei)))) = filter (\<lambda>p. fst p \<le> snd p) ei"
  by (induction ei) (auto simp: row0_def row1_def)

lemma indicator_eq:
  "map (\<lambda>c. if c then 1 else 0) (map2 (\<le>) (row0 ei) (row1 ei))
     = map (\<lambda>p. if fst p \<le> snd p then 1 else (0::int)) ei"
  by (induction ei) (auto simp: row0_def row1_def)

lemma sum_indicator:
  "sum_list (map (\<lambda>p. if P p then 1 else (0::int)) xs) = int (length (filter P xs))"
  by (induction xs) auto

lemma sum_take_drop:
  "sum_list (take m (drop k (xs::int list))) = sum_list (take (k + m) xs) - sum_list (take k xs)"
  by (simp add: take_add)

lemma edge_diff_slices_nth:
  "Suc j < length s \<Longrightarrow> edge_diff_slices s ! j = s ! Suc j - s ! j"
  by (simp add: edge_diff_slices_def nth_tl nth_butlast)

lemma edge_diff_slices_length: "length (edge_diff_slices s) = length s - 1"
  by (simp add: edge_diff_slices_def)

lemma diffs_prefix_sum:
  assumes "sorted s"
  shows "j < length s \<Longrightarrow> sum_list (map nat (take j (edge_diff_slices s))) = nat (s ! j - s ! 0)"
proof (induction j)
  case 0 then show ?case by simp
next
  case (Suc j)
  have l: "j < length (edge_diff_slices s)" using Suc.prems by (simp add: edge_diff_slices_length)
  have m1: "s ! 0 \<le> s ! j" using assms Suc.prems by (simp add: sorted_nth_mono)
  have m2: "s ! j \<le> s ! Suc j" using assms Suc.prems by (simp add: sorted_nth_mono)
  have "sum_list (map nat (take (Suc j) (edge_diff_slices s)))
      = sum_list (map nat (take j (edge_diff_slices s))) + nat (edge_diff_slices s ! j)"
    using l by (simp add: take_Suc_conv_app_nth)
  also have "\<dots> = nat (s ! j - s ! 0) + nat (s ! Suc j - s ! j)"
    using Suc by (simp add: edge_diff_slices_nth)
  also have "\<dots> = nat (s ! Suc j - s ! 0)" using m1 m2 by linarith
  finally show ?case .
qed

lemma repeat_interleave_blocks:
  "sorted s \<Longrightarrow>
   repeat_interleave [0..<length (edge_diff_slices s)] (edge_diff_slices s)
     = Inr (blocks 0 (edge_diff_slices s))"
proof -
  assume srt: "sorted s"
  have "\<not> list_ex (\<lambda>r. r < 0) (edge_diff_slices s)"
  proof -
    have "0 \<le> edge_diff_slices s ! j" if "j < length (edge_diff_slices s)" for j
    proof -
      from that have "Suc j < length s" by (simp add: edge_diff_slices_length)
      then show ?thesis using srt by (simp add: edge_diff_slices_nth sorted_nth_mono)
    qed
    then show ?thesis by (fastforce simp: list_ex_length)
  qed
  then show ?thesis by (simp add: repeat_interleave_def blocks_def)
qed

lemma remove_duplicate_edges_values_offsets:
  assumes packed: "packed_offsets edge_slices (int (length ei))"
    and last_graph: "2 \<le> length edge_slices \<longrightarrow>
        edge_slices ! (length edge_slices - 2) < last edge_slices"
  shows "\<exists>new_slices.
      remove_duplicate_edges_values ei edge_slices
        = Inr (filter (\<lambda>p. fst p \<le> snd p) ei, new_slices)
      \<and> length new_slices = length edge_slices
      \<and> (\<forall>g<length edge_slices. new_slices ! g =
            int (length (filter (\<lambda>p. fst p \<le> snd p) (take (nat (edge_slices ! g)) ei))))"
proof -
  let ?s = edge_slices
  let ?ds = "edge_diff_slices ?s"
  let ?c = "map (\<lambda>p. if fst p \<le> snd p then 1 else (0::int)) ei"
  let ?R = "\<lambda>k. sum_list (take k ?c)"
  from packed have ne: "?s \<noteq> []" and srt: "sorted ?s" and h0: "?s ! 0 = 0"
    and lst: "last ?s = int (length ei)"
    by (auto simp: packed_offsets_def hd_conv_nth)
  have ln: "length ?ds = length ?s - 1" by (rule edge_diff_slices_length)
  have pre: "sum_list (map nat (take j ?ds)) = nat (?s ! j)" if "j < length ?s" for j
    using diffs_prefix_sum[OF srt that] h0 by simp
  have tot: "sum_list (map nat ?ds) = length ei"
  proof -
    have "sum_list (map nat (take (length ?s - 1) ?ds)) = nat (?s ! (length ?s - 1))"
      using ne by (intro pre) simp
    then show ?thesis using ne lst by (simp add: ln last_conv_nth)
  qed
  have lb: "length (blocks 0 ?ds) = length ei" by (simp add: length_blocks tot)
  have size: "scatter_size (blocks 0 ?ds) = length ?ds"
  proof (cases "2 \<le> length ?s")
    case True
    then have dne: "?ds \<noteq> []" using ln by auto
    have "last ?ds = ?s ! (length ?s - 1) - ?s ! (length ?s - 2)"
    proof -
      have "length ?ds - 1 = length ?s - 2" using ln by simp
      then have "last ?ds = ?ds ! (length ?s - 2)"
        using last_conv_nth[OF dne] by simp
      also have "\<dots> = ?s ! Suc (length ?s - 2) - ?s ! (length ?s - 2)"
        using True by (intro edge_diff_slices_nth) simp
      also have "Suc (length ?s - 2) = length ?s - 1" using True by simp
      finally show ?thesis .
    qed
    then have "0 < last ?ds" using last_graph True ne by (simp add: last_conv_nth)
    then show ?thesis using dne by (simp add: scatter_size_blocks)
  next
    case False
    then have "?ds = []" using ln by (cases ?ds) auto
    then show ?thesis by (simp add: blocks_Nil scatter_size_def)
  qed
  let ?n = "scatter_add ?c (blocks 0 ?ds)"
  have n_len: "length ?n = length ?s - 1" by (simp add: scatter_add_def size ln)
  have n_nth: "?n ! j = ?R (nat (?s ! Suc j)) - ?R (nat (?s ! j))" if j: "Suc j < length ?s" for j
  proof -
    have jl: "j < length ?ds" using j ln by simp
    have "?n ! j = sum_list (map fst (filter (\<lambda>(v, i). i = 0 + j) (zip ?c (blocks 0 ?ds))))"
      using jl by (simp add: scatter_add_def size)
    also have "\<dots> = sum_list (take (nat (?ds ! j)) (drop (sum_list (map nat (take j ?ds))) ?c))"
      by (rule scatter_block) (use tot jl in simp_all)
    also have "\<dots> = sum_list (take (nat (?ds ! j)) (drop (nat (?s ! j)) ?c))"
      using pre[of j] j by simp
    also have "\<dots> = ?R (nat (?s ! j) + nat (?ds ! j)) - ?R (nat (?s ! j))"
      by (rule sum_take_drop)
    also have "nat (?s ! j) + nat (?ds ! j) = nat (?s ! Suc j)"
    proof -
      have "0 \<le> ?s ! j" using srt h0 j sorted_nth_mono[of ?s 0 j] by simp
      moreover have "?s ! j \<le> ?s ! Suc j" using srt j by (simp add: sorted_nth_mono)
      ultimately show ?thesis using j by (simp add: edge_diff_slices_nth)
    qed
    finally show ?thesis .
  qed
  have prefix: "sum_list (take g ?n) = ?R (nat (?s ! g))" if "g < length ?s" for g
    using that
  proof (induction g)
    case 0 then show ?case by (simp add: h0)
  next
    case (Suc g)
    then have gl: "g < length ?n" by (simp add: n_len)
    have "sum_list (take (Suc g) ?n) = sum_list (take g ?n) + ?n ! g"
      using gl by (simp add: take_Suc_conv_app_nth)
    then show ?case using Suc n_nth[of g] by simp
  qed
  let ?new = "cumsum (0 # ?n)"
  have res: "remove_duplicate_edges_values ei ?s = Inr (filter (\<lambda>p. fst p \<le> snd p) ei, ?new)"
  proof -
    have sc: "scatter_sum ?c (blocks 0 ?ds) = Inr ?n" by (simp add: scatter_sum_def lb)
    show ?thesis
      unfolding remove_duplicate_edges_values_def Let_def repeat_interleave_blocks[OF srt]
        indicator_eq kept_edges
      by (simp add: sc)
  qed
  have new_len: "length ?new = length ?s"
    using ne by (simp add: cumsum_def cumsum_from_length n_len)
  have new_nth: "?new ! g = int (length (filter (\<lambda>p. fst p \<le> snd p) (take (nat (?s ! g)) ei)))"
    if g: "g < length ?s" for g
  proof -
    have "?new ! g = sum_list (take (Suc g) (0 # ?n))"
      unfolding cumsum_def using g n_len ne by (subst cumsum_from_nth) auto
    also have "\<dots> = ?R (nat (?s ! g))" using prefix[OF g] by simp
    also have "\<dots> = int (length (filter (\<lambda>p. fst p \<le> snd p) (take (nat (?s ! g)) ei)))"
      by (simp add: take_map sum_indicator)
    finally show ?thesis .
  qed
  show ?thesis using res new_len new_nth by blast
qed

text \<open>
  Where the offsets satisfy the invariant of packed batches and the last graph has at
  least one edge, the function keeps exactly the edges with source index at most the
  destination index, in their order, and the new offsets are the cumulative retained edge
  counts: as many entries as before, the first 0, the last the number of retained edges.
\<close>

lemma remove_duplicate_edges_values_retained:
  assumes packed: "packed_offsets edge_slices (int (length ei))"
    and last_graph: "2 \<le> length edge_slices \<longrightarrow>
        edge_slices ! (length edge_slices - 2) < last edge_slices"
  shows "\<exists>new_slices.
      remove_duplicate_edges_values ei edge_slices
        = Inr (filter (\<lambda>p. fst p \<le> snd p) ei, new_slices)
      \<and> new_slices = retained_offsets ei edge_slices
      \<and> length new_slices = length edge_slices
      \<and> hd new_slices = 0
      \<and> last new_slices = int (length (filter (\<lambda>p. fst p \<le> snd p) ei))"
proof -
  obtain new_slices where
    res: "remove_duplicate_edges_values ei edge_slices
        = Inr (filter (\<lambda>p. fst p \<le> snd p) ei, new_slices)"
    and len: "length new_slices = length edge_slices"
    and nth: "\<forall>g<length edge_slices. new_slices ! g =
            int (length (filter (\<lambda>p. fst p \<le> snd p) (take (nat (edge_slices ! g)) ei)))"
    using remove_duplicate_edges_values_offsets[OF packed last_graph] by blast
  have eq: "new_slices = retained_offsets ei edge_slices"
    by (rule nth_equalityI) (use len nth in \<open>simp_all add: retained_offsets_def\<close>)
  from packed have ne: "edge_slices \<noteq> []" and h0: "hd edge_slices = 0"
    and lst: "last edge_slices = int (length ei)"
    by (simp_all add: packed_offsets_def)
  have hd0: "hd new_slices = 0"
    using ne h0 by (simp add: eq retained_offsets_def hd_map)
  have lastn: "last new_slices = int (length (filter (\<lambda>p. fst p \<le> snd p) ei))"
    using ne lst by (simp add: eq retained_offsets_def last_map)
  show ?thesis
    using res eq len hd0 lastn by simp
qed

lemma remove_duplicate_edges_values_retained_example:
  "remove_duplicate_edges_values [(0, 1), (1, 0), (1, 2), (2, 1), (3, 4), (4, 3)] [0, 4, 6]
     = Inr ([(0, 1), (1, 2), (3, 4)], [0, 2, 3])"
  by code_simp

text \<open>
  C2. remove_duplicate_edges is to keep the edges with source index at most the
  destination index and to return, as the new offsets, the cumulative retained edge
  counts of the graphs. On a batch whose last graph has no edge it does not: the counts
  per graph come from a scatter sum that is given no size, so it has one entry per graph
  index up to the largest one that owns an edge. For two graphs with the edge offsets
  [0, 2, 2], which satisfy the invariant of packed batches, the retained edges are right
  and the new offsets are [0, 1], one entry short of the cumulative counts [0, 1, 1].
\<close>

theorem remove_duplicate_edges_drops_trailing_graph:
  "packed_offsets [0, 2, 2] (int (length [(0 :: int, 1 :: int), (1, 0)]))
   \<and> remove_duplicate_edges_values [(0, 1), (1, 0)] [0, 2, 2] = Inr ([(0, 1)], [0, 1])
   \<and> retained_offsets [(0, 1), (1, 0)] [0, 2, 2] = [0, 1, 1]"
  by code_simp

lemma clone_batch:
  assumes "cells h r = Some (BatchObj rx re rb rs)"
    and "cells h rx = Some ox" "cells h re = Some oe" "cells h rb = Some ob" "cells h rs = Some os"
    and "rx < next_ref h" "re < next_ref h" "rb < next_ref h" "rs < next_ref h"
  shows "clone h r =
     Some (h\<lparr>cells := (cells h)(next_ref h \<mapsto> ox, next_ref h + 1 \<mapsto> oe, next_ref h + 2 \<mapsto> ob,
                next_ref h + 3 \<mapsto> os,
                next_ref h + 4 \<mapsto> BatchObj (next_ref h) (next_ref h + 1) (next_ref h + 2) (next_ref h + 3)),
              next_ref := next_ref h + 5\<rparr>, next_ref h + 4)"
  using assms by (simp add: clone_def copy_obj_def alloc_def eval_nat_numeral)

text \<open>
  C9. For a batch in the store whose tensors and offsets dictionary were allocated before
  the call, remove_duplicate_edges changes no object that existed before the call: the
  edge tensor and the edge offsets read through the caller's reference are the same
  afterwards, whether the call raises or returns. When it returns, the returned reference
  is a new batch object that carries the reduced edges and the rewritten offsets.
\<close>

theorem remove_duplicate_edges_frame:
  assumes batch: "cells h r = Some (BatchObj rx re rb rs)"
    and objs: "cells h rx = Some ox" "cells h re = Some (EdgeTensor ei)" "cells h rb = Some ob"
      "cells h rs = Some (SlicesDict d)" "d ''edge_index'' = Some edge_slices"
    and alloc: "r < next_ref h" "rx < next_ref h" "re < next_ref h" "rb < next_ref h"
      "rs < next_ref h"
  shows "(\<forall>r'<next_ref h. cells (fst (remove_duplicate_edges h r)) r' = cells h r')
     \<and> read_edge_index (fst (remove_duplicate_edges h r)) r = Some ei
     \<and> read_edge_index h r = Some ei
     \<and> read_edge_slices (fst (remove_duplicate_edges h r)) r = Some edge_slices
     \<and> read_edge_slices h r = Some edge_slices
     \<and> (case remove_duplicate_edges_values ei edge_slices of
          Inl e \<Rightarrow> snd (remove_duplicate_edges h r) = Inl e
        | Inr (ei', new_slices) \<Rightarrow>
            (\<exists>r1. snd (remove_duplicate_edges h r) = Inr r1 \<and> r1 \<noteq> r
               \<and> read_edge_index (fst (remove_duplicate_edges h r)) r1 = Some ei'
               \<and> read_edge_slices (fst (remove_duplicate_edges h r)) r1 = Some new_slices))"
proof -
  define n where "n = next_ref h"
  define rx1 where "rx1 = n"
  define re1 where "re1 = n + 1"
  define rb1 where "rb1 = n + 2"
  define rs1 where "rs1 = n + 3"
  define r1 where "r1 = n + 4"
  define re2 where "re2 = n + 5"
  define h1 where "h1 = h\<lparr>cells := (cells h)(next_ref h \<mapsto> ox, next_ref h + 1 \<mapsto> EdgeTensor ei,
                next_ref h + 2 \<mapsto> ob, next_ref h + 3 \<mapsto> SlicesDict d,
                next_ref h + 4 \<mapsto> BatchObj (next_ref h) (next_ref h + 1) (next_ref h + 2) (next_ref h + 3)),
              next_ref := next_ref h + 5\<rparr>"
  have cl: "clone h r = Some (h1, r1)"
    unfolding h1_def n_def r1_def using batch objs alloc by (simp add: clone_batch)
  have h1: "cells h1 r1 = Some (BatchObj rx1 re1 rb1 rs1)"
    "cells h1 re1 = Some (EdgeTensor ei)" "cells h1 rs1 = Some (SlicesDict d)"
    "next_ref h1 = re2"
    by (simp_all add: h1_def n_def r1_def re1_def rs1_def rx1_def rb1_def re2_def)
  have old1: "cells h1 r' = cells h r'" if "r' < n" for r'
    using that by (simp add: h1_def n_def)
  have ne: "re2 \<noteq> r1" "re2 \<noteq> rs1" "r1 \<noteq> rs1" "rs1 \<noteq> r1" "rs1 \<noteq> re2" "r1 \<noteq> re2"
    by (simp_all add: r1_def rs1_def re2_def)
  have ge: "n \<le> r1" "n \<le> rs1" "n \<le> re2" by (simp_all add: r1_def rs1_def re2_def)
  have lt: "r < n" "rx < n" "re < n" "rb < n" "rs < n" using alloc by (simp_all add: n_def)
  have r0: "read_edge_index h r = Some ei" "read_edge_slices h r = Some edge_slices"
    using batch objs by (simp_all add: read_edge_index_def read_edge_slices_def)
  have rd1: "read_edge_index h1 r1 = Some ei" "read_edge_slices h1 r1 = Some edge_slices"
    using objs h1 by (simp_all add: read_edge_index_def read_edge_slices_def)
  have keep: "read_edge_index h' r = Some ei \<and> read_edge_slices h' r = Some edge_slices"
    if "\<And>r'. r' < n \<Longrightarrow> cells h' r' = cells h r'" for h'
    using that[of r] that[of re] that[of rs] lt batch objs
    by (simp add: read_edge_index_def read_edge_slices_def)
  show ?thesis
  proof (cases "remove_duplicate_edges_values ei edge_slices")
    case (Inl e)
    have res: "remove_duplicate_edges h r = (h1, Inl e)"
      by (simp add: remove_duplicate_edges_def cl rd1 h1 Inl)
    show ?thesis
      unfolding res using r0 keep[of h1] old1 Inl by (simp add: n_def)
  next
    case (Inr v)
    obtain ei' new_slices where v: "v = (ei', new_slices)" by (cases v)
    define h4 where "h4 = h1\<lparr>cells := (cells h1)(re2 \<mapsto> EdgeTensor ei',
        r1 \<mapsto> BatchObj rx1 re2 rb1 rs1,
        rs1 \<mapsto> SlicesDict (d(''edge_index'' \<mapsto> new_slices))), next_ref := Suc re2\<rparr>"
    have res: "remove_duplicate_edges h r = (h4, Inr r1)"
      by (simp add: remove_duplicate_edges_def cl rd1 h1 Inr v alloc_def h4_def ne)
    have old4: "cells h4 r' = cells h r'" if "r' < n" for r'
      using that old1 ge by (simp add: h4_def)
    have new4: "read_edge_index h4 r1 = Some ei'" "read_edge_slices h4 r1 = Some new_slices"
      using ne by (simp_all add: h4_def read_edge_index_def read_edge_slices_def)
    have "r1 \<noteq> r" using lt ge by simp
    then show ?thesis
      unfolding res using r0 keep[of h4] old4 new4 Inr v by (simp add: n_def)
  qed
qed

theorem remove_duplicate_edges_frame_witness:
  "read_edge_index (fst (remove_duplicate_edges example_heap 4)) 4 = Some [(0, 1), (1, 0)]
   \<and> read_edge_slices (fst (remove_duplicate_edges example_heap 4)) 4 = Some [0, 2]
   \<and> (\<exists>r1. snd (remove_duplicate_edges example_heap 4) = Inr r1 \<and> r1 \<noteq> 4
         \<and> read_edge_index (fst (remove_duplicate_edges example_heap 4)) r1 = Some [(0, 1)]
         \<and> read_edge_slices (fst (remove_duplicate_edges example_heap 4)) r1 = Some [0, 1])"
proof -
  have v: "remove_duplicate_edges_values [(0, 1), (1, 0)] [0, 2] = Inr ([(0, 1)], [0, 1])"
    by code_simp
  have "cells example_heap 4 = Some (BatchObj 0 1 2 3)"
    "cells example_heap 0 = Some (FloatTensor [[0], [1]])"
    "cells example_heap 1 = Some (EdgeTensor [(0, 1), (1, 0)])"
    "cells example_heap 2 = Some (LongTensor [0, 0])"
    "cells example_heap 3 = Some (SlicesDict [''x'' \<mapsto> [0, 2], ''edge_index'' \<mapsto> [0, 2]])"
    "[''x'' \<mapsto> [0, 2], ''edge_index'' \<mapsto> [0, 2 :: int]] ''edge_index'' = Some [0, 2]"
    "4 < next_ref example_heap" "0 < next_ref example_heap" "1 < next_ref example_heap"
    "2 < next_ref example_heap" "3 < next_ref example_heap"
    by (simp_all add: example_heap_def)
  from remove_duplicate_edges_frame[OF this] show ?thesis
    by (simp add: v)
qed

section \<open>Properties of the persistence engine\<close>

lemma collect_projr:
  "(\<And>x. x \<in> set xs \<Longrightarrow> \<exists>y. f x = Inr y) \<Longrightarrow> collect f xs = Inr (map (\<lambda>x. projr (f x)) xs)"
proof (induction xs)
  case Nil then show ?case by simp
next
  case (Cons x xs)
  then obtain y where "f x = Inr y" by auto
  moreover have "collect f xs = Inr (map (\<lambda>x. projr (f x)) xs)"
    using Cons by simp
  ultimately show ?case by simp
qed

lemma self_pairs:
  "map (\<lambda>v. if [0..<length fv] ! v = v then (fv ! v, fv ! v) else ps v) [0..<length fv]
     = map (\<lambda>b. (b, b)) fv"
  by (rule nth_equalityI) simp_all

lemma persistence_graph_no_edges:
  "persistence_graph fv [] [] = Inr (map (\<lambda>b. (b, b)) fv, [])"
  by (simp add: persistence_graph_def Let_def self_pairs)

lemma persistence_graph_ok:
  assumes "\<forall>p\<in>set edges. fst p < length fv \<and> snd p < length fv" "length fe = length edges"
  shows "\<exists>r. persistence_graph fv edges fe = Inr r"
proof -
  have "\<not> list_ex (\<lambda>(u, v). u \<ge> length fv \<or> v \<ge> length fv) edges"
    using assms(1) by (fastforce simp: list_ex_iff)
  then show ?thesis using assms(2) by (simp add: persistence_graph_def Let_def)
qed

lemma py_slice_length:
  "0 \<le> a \<Longrightarrow> a \<le> b \<Longrightarrow> b \<le> int (length xs) \<Longrightarrow> length (py_slice xs a b) = nat b - nat a"
  by (simp add: py_slice_def slice_bound_nonneg nat_mono Let_def)

lemma py_slice_nth:
  "0 \<le> a \<Longrightarrow> a \<le> b \<Longrightarrow> b \<le> int (length xs) \<Longrightarrow> k < nat b - nat a \<Longrightarrow>
   py_slice xs a b ! k = xs ! (nat a + k)"
  by (simp add: py_slice_def slice_bound_nonneg nat_mono Let_def)

lemma py_slice_empty: "py_slice xs a a = []"
  by (simp add: py_slice_def)

lemma valid_offsets_nth:
  assumes "valid_offsets offs n" "Suc g < length offs"
  shows "0 \<le> offs ! g" "offs ! g \<le> offs ! Suc g" "offs ! Suc g \<le> int n"
  using assms by (auto simp: valid_offsets_def list_all_length sorted_nth_mono)

lemma graph_persistence_ok:
  assumes vo: "valid_offsets vertex_slices (length fv_row)"
    and eo: "valid_offsets edge_slices (length fe_row)" "length fe_row = length edge_list"
    and g: "Suc g < length vertex_slices" "Suc g < length edge_slices"
    and inside: "\<forall>p\<in>set (py_slice edge_list (edge_slices ! g) (edge_slices ! Suc g)).
        vertex_slices ! g \<le> fst p \<and> fst p < vertex_slices ! Suc g
        \<and> vertex_slices ! g \<le> snd p \<and> snd p < vertex_slices ! Suc g"
  shows "\<exists>r. graph_persistence fv_row fe_row edge_list vertex_slices edge_slices g = Inr r"
proof -
  let ?a = "vertex_slices ! g" and ?b = "vertex_slices ! Suc g"
  let ?c = "edge_slices ! g" and ?d = "edge_slices ! Suc g"
  let ?es = "py_slice edge_list ?c ?d"
  note v = valid_offsets_nth[OF vo g(1)]
  note e = valid_offsets_nth[OF eo(1) g(2)]
  have no: "\<not> list_ex (\<lambda>(u, v). u < ?a \<or> u \<ge> ?b \<or> v < ?a \<or> v \<ge> ?b) ?es"
    using inside by (fastforce simp: list_ex_iff)
  have lfv: "length (py_slice fv_row ?a ?b) = nat ?b - nat ?a"
    using v by (simp add: py_slice_length)
  have loc: "\<forall>p\<in>set (map (\<lambda>(u, v). (nat (u - ?a), nat (v - ?a))) ?es).
      fst p < length (py_slice fv_row ?a ?b) \<and> snd p < length (py_slice fv_row ?a ?b)"
    unfolding lfv using inside v by (auto simp: nat_diff_distrib nat_mono intro!: diff_less_mono)
  have lfe: "length (py_slice fe_row ?c ?d) = length (map (\<lambda>(u, v). (nat (u - ?a), nat (v - ?a))) ?es)"
    using e eo(2) by (simp add: py_slice_length)
  obtain r where "persistence_graph (py_slice fv_row ?a ?b)
      (map (\<lambda>(u, v). (nat (u - ?a), nat (v - ?a))) ?es) (py_slice fe_row ?c ?d) = Inr r"
    using persistence_graph_ok[OF loc lfe] by blast
  then show ?thesis using no by (simp add: graph_persistence_def Let_def)
qed

lemma graph_persistence_no_edges:
  assumes "edge_slices ! g = edge_slices ! Suc g"
  shows "graph_persistence fv_row fe_row edge_list vertex_slices edge_slices g
     = Inr (map (\<lambda>b. (b, b)) (py_slice fv_row (vertex_slices ! g) (vertex_slices ! Suc g)), [])"
  using assms by (simp add: graph_persistence_def py_slice_empty persistence_graph_no_edges)

lemma graph_of_unique:
  assumes srt: "sorted offs" and g: "Suc g < length offs"
    and k: "offs ! g \<le> int k" "int k < offs ! Suc g"
  shows "graph_of offs k = Some g"
proof -
  let ?P = "\<lambda>g. offs ! g \<le> int k \<and> int k < offs ! (g + 1)"
  have gin: "g \<in> set [0..<length offs - 1]" using g by auto
  have "?P g" using k by simp
  then obtain g' where f: "find ?P [0..<length offs - 1] = Some g'"
    using gin by (cases "find ?P [0..<length offs - 1]") (auto simp: find_None_iff)
  then have P': "?P g'" and in': "g' \<in> set [0..<length offs - 1]"
    by (auto simp: find_Some_iff)
  then have g': "Suc g' < length offs" by auto
  have "g' = g"
  proof (rule ccontr)
    assume ne: "g' \<noteq> g"
    show False
    proof (cases "g' < g")
      case True
      then have "offs ! Suc g' \<le> offs ! g" using srt g by (simp add: sorted_nth_mono)
      with P' k show False by simp
    next
      case False
      with ne have "Suc g \<le> g'" by simp
      then have "offs ! Suc g \<le> offs ! g'" using srt g' by (simp add: sorted_nth_mono)
      with P' k show False by simp
    qed
  qed
  with f show ?thesis by (simp add: graph_of_def)
qed

lemma channel_persistence_zero_edge_graph:
  assumes vo: "valid_offsets vertex_slices (length fv_row)"
    and eo: "valid_offsets edge_slices (length fe_row)" "length fe_row = length edge_list"
    and same: "length edge_slices = length vertex_slices"
    and inside: "\<forall>g. Suc g < length vertex_slices \<longrightarrow>
        (\<forall>p\<in>set (py_slice edge_list (edge_slices ! g) (edge_slices ! Suc g)).
           vertex_slices ! g \<le> fst p \<and> fst p < vertex_slices ! Suc g
           \<and> vertex_slices ! g \<le> snd p \<and> snd p < vertex_slices ! Suc g)"
    and g: "Suc g < length vertex_slices" "edge_slices ! g = edge_slices ! Suc g"
  shows "\<exists>p0 p1. channel_persistence fv_row fe_row edge_list vertex_slices edge_slices = Inr (p0, p1)
     \<and> length p0 = length fv_row \<and> length p1 = length fe_row
     \<and> (\<forall>k. nat (vertex_slices ! g) \<le> k \<and> k < nat (vertex_slices ! Suc g)
            \<longrightarrow> p0 ! k = (fv_row ! k, fv_row ! k))"
proof -
  let ?gp = "graph_persistence fv_row fe_row edge_list vertex_slices edge_slices"
  let ?per = "map (\<lambda>g. projr (?gp g)) [0..<length vertex_slices - 1]"
  have each: "\<exists>y. ?gp g' = Inr y" if "g' \<in> set [0..<length vertex_slices - 1]" for g'
  proof -
    from that have g': "Suc g' < length vertex_slices" by auto
    show ?thesis
      by (rule graph_persistence_ok[OF vo eo]) (use g' same inside in auto)
  qed
  have c: "collect ?gp [0..<length vertex_slices - 1] = Inr ?per"
    by (rule collect_projr) (rule each)
  let ?p0 = "map (\<lambda>k. case graph_of vertex_slices k of
                          None \<Rightarrow> (0, 0)
                        | Some g \<Rightarrow> fst (?per ! g) ! (k - nat (vertex_slices ! g)))
                 [0..<length fv_row]"
  let ?p1 = "map (\<lambda>k. case graph_of edge_slices k of
                          None \<Rightarrow> (0, 0)
                        | Some g \<Rightarrow> snd (?per ! g) ! (k - nat (edge_slices ! g)))
                 [0..<length fe_row]"
  have res: "channel_persistence fv_row fe_row edge_list vertex_slices edge_slices = Inr (?p0, ?p1)"
    unfolding channel_persistence_def c by (simp only: sum.case)
  note v = valid_offsets_nth[OF vo g(1)]
  have srt: "sorted vertex_slices" using vo by (simp add: valid_offsets_def)
  have pg: "?per ! g = (map (\<lambda>b. (b, b)) (py_slice fv_row (vertex_slices ! g) (vertex_slices ! Suc g)), [])"
  proof -
    have "g < length vertex_slices - 1" using g(1) by simp
    then have "?per ! g = projr (?gp g)" by simp
    then show ?thesis by (simp add: graph_persistence_no_edges[OF g(2)])
  qed
  have val: "?p0 ! k = (fv_row ! k, fv_row ! k)"
    if k: "nat (vertex_slices ! g) \<le> k" "k < nat (vertex_slices ! Suc g)" for k
  proof -
    have kl: "k < length fv_row" using k v by linarith
    have go: "graph_of vertex_slices k = Some g"
      by (rule graph_of_unique[OF srt g(1)]) (use k v in linarith)+
    have kk: "k - nat (vertex_slices ! g) < nat (vertex_slices ! Suc g) - nat (vertex_slices ! g)"
      using k by linarith
    have "?p0 ! k = fst (?per ! g) ! (k - nat (vertex_slices ! g))"
      using kl go by simp
    also have "\<dots> = (\<lambda>b. (b, b)) (py_slice fv_row (vertex_slices ! g) (vertex_slices ! Suc g)
        ! (k - nat (vertex_slices ! g)))"
      unfolding pg using kk v by (simp add: py_slice_length)
    also have "py_slice fv_row (vertex_slices ! g) (vertex_slices ! Suc g) ! (k - nat (vertex_slices ! g))
        = fv_row ! k"
      using py_slice_nth[OF v kk] k by simp
    finally show ?thesis .
  qed
  show ?thesis using res val by (intro exI[of _ ?p0] exI[of _ ?p1]) simp
qed

text \<open>
  C7. On a packed batch that passes the validation of the engine and whose edges stay
  inside their graphs, the engine returns (no error), and for a graph g without edges and
  every channel: the dim0 output of the graph has exactly as many pairs as the graph has
  vertices, each pair is (own filtration value, own filtration value), and the dim1 output
  of the graph holds nothing but zero pairs (it is empty, as the graph has no edge).
\<close>

theorem persistence_engine_zero_edge_graph:
  assumes shapes: "length fe = length fv" "list_all (\<lambda>r. length r = N) fv"
      "list_all (\<lambda>r. length r = length edge_list) fe"
    and offs: "valid_offsets vertex_slices N" "valid_offsets edge_slices (length edge_list)"
      "length edge_slices = length vertex_slices"
    and inside: "\<forall>g. Suc g < length vertex_slices \<longrightarrow>
        (\<forall>p\<in>set (py_slice edge_list (edge_slices ! g) (edge_slices ! Suc g)).
           vertex_slices ! g \<le> fst p \<and> fst p < vertex_slices ! Suc g
           \<and> vertex_slices ! g \<le> snd p \<and> snd p < vertex_slices ! Suc g)"
    and g: "Suc g < length vertex_slices" "edge_slices ! g = edge_slices ! Suc g"
  shows "\<exists>p0 p1. persistence_engine fv fe edge_list vertex_slices edge_slices = Inr (p0, p1)
     \<and> length p0 = length fv \<and> length p1 = length fv
     \<and> (\<forall>f<length fv.
           length (py_slice (p0 ! f) (vertex_slices ! g) (vertex_slices ! Suc g))
             = nat (vertex_slices ! Suc g) - nat (vertex_slices ! g)
         \<and> py_slice (p0 ! f) (vertex_slices ! g) (vertex_slices ! Suc g)
             = map (\<lambda>b. (b, b)) (py_slice (fv ! f) (vertex_slices ! g) (vertex_slices ! Suc g))
         \<and> length (p1 ! f) = length edge_list
         \<and> list_all (\<lambda>p. p = (0, 0))
              (py_slice (p1 ! f) (edge_slices ! g) (edge_slices ! Suc g)))"
proof -
  let ?cp = "\<lambda>(fv_row, fe_row). channel_persistence fv_row fe_row edge_list vertex_slices edge_slices"
  let ?a = "vertex_slices ! g" and ?b = "vertex_slices ! Suc g"
  note v = valid_offsets_nth[OF offs(1) g(1)]
  have chan: "\<exists>p0 p1. ?cp (fv_row, fe_row) = Inr (p0, p1)
     \<and> length p0 = N \<and> length p1 = length edge_list
     \<and> (\<forall>k. nat ?a \<le> k \<and> k < nat ?b \<longrightarrow> p0 ! k = (fv_row ! k, fv_row ! k))"
    if "(fv_row, fe_row) \<in> set (zip fv fe)" for fv_row fe_row
  proof -
    from that have "fv_row \<in> set fv" "fe_row \<in> set fe" by (auto dest: set_zip_leftD set_zip_rightD)
    then have l: "length fv_row = N" "length fe_row = length edge_list"
      using shapes by (auto simp: list_all_iff)
    show ?thesis
      using channel_persistence_zero_edge_graph[of vertex_slices fv_row edge_slices fe_row edge_list g]
        offs inside g l by simp
  qed
  have each: "\<exists>y. ?cp x = Inr y" if "x \<in> set (zip fv fe)" for x
    using chan[of "fst x" "snd x"] that by auto
  let ?chans = "map (\<lambda>x. projr (?cp x)) (zip fv fe)"
  have c: "collect ?cp (zip fv fe) = Inr ?chans"
    by (rule collect_projr) (rule each)
  have ne: "vertex_slices \<noteq> []" using g(1) by auto
  have ok: "\<not> (length fe \<noteq> length fv \<or> length edge_slices \<noteq> length vertex_slices
         \<or> \<not> list_all (\<lambda>r. valid_offsets vertex_slices (length r)) fv
         \<or> \<not> list_all (\<lambda>r. valid_offsets edge_slices (length r) \<and> length r = length edge_list) fe
         \<or> vertex_slices = [])"
    using shapes offs ne by (auto simp: list_all_iff)
  have res: "persistence_engine fv fe edge_list vertex_slices edge_slices
      = Inr (map fst ?chans, map snd ?chans)"
    unfolding persistence_engine_def c using ok by (simp only: if_False sum.case)
  have rows: "length (py_slice (map fst ?chans ! f) ?a ?b) = nat ?b - nat ?a
         \<and> py_slice (map fst ?chans ! f) ?a ?b = map (\<lambda>b. (b, b)) (py_slice (fv ! f) ?a ?b)
         \<and> length (map snd ?chans ! f) = length edge_list
         \<and> list_all (\<lambda>p. p = (0, 0))
              (py_slice (map snd ?chans ! f) (edge_slices ! g) (edge_slices ! Suc g))"
    if f: "f < length fv" for f
  proof -
    have fz: "f < length (zip fv fe)" using f shapes(1) by simp
    then have mem: "(fv ! f, fe ! f) \<in> set (zip fv fe)"
      using nth_mem[OF fz] by simp
    obtain p0 p1 where p: "?cp (fv ! f, fe ! f) = Inr (p0, p1)" "length p0 = N"
      "length p1 = length edge_list"
      "\<forall>k. nat ?a \<le> k \<and> k < nat ?b \<longrightarrow> p0 ! k = (fv ! f ! k, fv ! f ! k)"
      using chan[OF mem] by blast
    have c0: "map fst ?chans ! f = p0" and c1: "map snd ?chans ! f = p1"
      using fz p(1) by simp_all
    have lf: "length (fv ! f) = N" using shapes(2) f by (simp add: list_all_length)
    have l0: "length (py_slice p0 ?a ?b) = nat ?b - nat ?a"
      using v p(2) by (simp add: py_slice_length)
    have l1: "length (py_slice (fv ! f) ?a ?b) = nat ?b - nat ?a"
      using v lf by (simp add: py_slice_length)
    have eq: "py_slice p0 ?a ?b = map (\<lambda>b. (b, b)) (py_slice (fv ! f) ?a ?b)"
    proof (rule nth_equalityI)
      show "length (py_slice p0 ?a ?b) = length (map (\<lambda>b. (b, b)) (py_slice (fv ! f) ?a ?b))"
        using l0 l1 by simp
    next
      fix k assume "k < length (py_slice p0 ?a ?b)"
      then have k: "k < nat ?b - nat ?a" using l0 by simp
      have "py_slice p0 ?a ?b ! k = p0 ! (nat ?a + k)"
        using v p(2) k by (simp add: py_slice_nth)
      also have "\<dots> = (fv ! f ! (nat ?a + k), fv ! f ! (nat ?a + k))"
        using p(4) k by simp
      also have "fv ! f ! (nat ?a + k) = py_slice (fv ! f) ?a ?b ! k"
        using v lf k by (simp add: py_slice_nth)
      finally show "py_slice p0 ?a ?b ! k = map (\<lambda>b. (b, b)) (py_slice (fv ! f) ?a ?b) ! k"
        using k l1 by simp
    qed
    show ?thesis unfolding c0 c1 using l0 eq p(3) g(2) by (simp add: py_slice_empty)
  qed
  have lens: "length (map fst ?chans) = length fv" "length (map snd ?chans) = length fv"
    using shapes(1) by simp_all
  show ?thesis
    unfolding res using rows lens by blast
qed

theorem persistence_engine_zero_edge_graph_witness:
  "\<exists>p0 p1. persistence_engine [[0, 1, 2, 5, 6]] [[1, 2, 2]] [(0, 1), (1, 2), (0, 2)] [0, 3, 5] [0, 3, 3]
        = Inr (p0, p1)
     \<and> py_slice (p0 ! 0) 3 5 = [(5, 5), (6, 6)]
     \<and> length (p1 ! 0) = 3
     \<and> py_slice (p1 ! 0) 3 3 = []"
proof -
  let ?fv = "[[0, 1, 2, 5, 6]] :: matrix" and ?fe = "[[1, 2, 2]] :: matrix"
  let ?el = "[(0, 1), (1, 2), (0, 2)] :: edge_index"
  let ?vs = "[0, 3, 5] :: int list" and ?es = "[0, 3, 3] :: int list"
  have h1: "length ?fe = length ?fv" by simp
  have h2: "list_all (\<lambda>r. length r = 5) ?fv" by simp
  have h3: "list_all (\<lambda>r. length r = length ?el) ?fe" by simp
  have h4: "valid_offsets ?vs 5" by (simp add: valid_offsets_def)
  have h5: "valid_offsets ?es (length ?el)" by (simp add: valid_offsets_def)
  have h6: "length ?es = length ?vs" by simp
  have h7: "\<forall>g. Suc g < length ?vs \<longrightarrow>
        (\<forall>p\<in>set (py_slice ?el (?es ! g) (?es ! Suc g)).
           ?vs ! g \<le> fst p \<and> fst p < ?vs ! Suc g \<and> ?vs ! g \<le> snd p \<and> snd p < ?vs ! Suc g)"
    by (auto simp: less_Suc_eq py_slice_def slice_bound_def)
  have h8: "Suc 1 < length ?vs" by simp
  have h9: "?es ! 1 = ?es ! Suc 1" by simp
  have s: "py_slice [0, 1, 2, 5, 6 :: real] 3 5 = [5, 6]"
    by (simp add: py_slice_def slice_bound_def)
  from persistence_engine_zero_edge_graph[OF h1 h2 h3 h4 h5 h6 h7 h8 h9]
  obtain p0 p1 where r: "persistence_engine ?fv ?fe ?el ?vs ?es = Inr (p0, p1)"
    and a: "\<forall>f<length ?fv.
           length (py_slice (p0 ! f) (?vs ! 1) (?vs ! Suc 1)) = nat (?vs ! Suc 1) - nat (?vs ! 1)
         \<and> py_slice (p0 ! f) (?vs ! 1) (?vs ! Suc 1)
             = map (\<lambda>b. (b, b)) (py_slice (?fv ! f) (?vs ! 1) (?vs ! Suc 1))
         \<and> length (p1 ! f) = length ?el
         \<and> list_all (\<lambda>p. p = (0, 0)) (py_slice (p1 ! f) (?es ! 1) (?es ! Suc 1))"
    by blast
  have "py_slice (p0 ! 0) 3 5 = [(5, 5), (6, 6)]" "length (p1 ! 0) = 3"
    using a[rule_format, of 0] by (simp_all add: s)
  moreover have "py_slice (p1 ! 0) 3 3 = []" by (simp add: py_slice_def)
  ultimately show ?thesis using r by blast
qed

section \<open>Properties of forward\<close>

lemma compute_coord_fun0_rows:
  assumes "coord_fun_modules L \<noteq> []"
  shows "compute_coord_fun L persistence False =
     Inr (map (\<lambda>i. concat (map (\<lambda>m. coord_forward m persistence ! i) (coord_fun_modules L)))
            [0..<length persistence])"
proof -
  have "list_all (\<lambda>t. length t = length persistence)
      (map (\<lambda>m. coord_forward m persistence) (coord_fun_modules L))"
    by (simp add: list_all_iff coord_forward_def)
  with assms show ?thesis
    by (simp add: compute_coord_fun_def torch_cat1_rows o_def)
qed

lemma compute_coord_activations0_rows:
  assumes mods: "coord_fun_modules L \<noteq> []"
    and shape: "persistences0 \<noteq> []" "list_all (\<lambda>ch. length ch = n) persistences0"
  shows "\<exists>ca. compute_coord_activations L persistences0 False = Inr ca \<and> length ca = n
     \<and> is_matrix (length persistences0 * sum_list (map output_dim (coord_fun_modules L))) ca"
proof -
  let ?mods = "coord_fun_modules L"
  let ?g = "\<lambda>persistence. map (\<lambda>i. concat (map (\<lambda>m. coord_forward m persistence ! i) ?mods))
            [0..<length persistence]"
  have c: "collect (\<lambda>persistence. compute_coord_fun L persistence False) persistences0
      = Inr (map ?g persistences0)"
    by (rule collect_map) (simp add: compute_coord_fun0_rows[OF mods])
  have all: "list_all (\<lambda>t. length t = n) (map ?g persistences0)"
    using shape(2) by (simp add: list_all_iff)
  have ne: "map ?g persistences0 \<noteq> []" using shape(1) by simp
  let ?ca = "map (\<lambda>i. concat (map (\<lambda>t. t ! i) (map ?g persistences0))) [0..<n]"
  have res: "compute_coord_activations L persistences0 False = Inr ?ca"
    unfolding compute_coord_activations_def c by (simp add: torch_cat1_rows[OF ne all])
  have w: "length (concat (map (\<lambda>t. t ! i) (map ?g persistences0)))
      = length persistences0 * sum_list (map output_dim ?mods)"
    if i: "i < n" for i
  proof -
    have "\<And>ch. ch \<in> set persistences0 \<Longrightarrow>
        length (?g ch ! i) = sum_list (map output_dim ?mods)"
    proof -
      fix ch assume "ch \<in> set persistences0"
      then have l: "length ch = n" using shape(2) by (simp add: list_all_iff)
      have "length (?g ch ! i) = sum_list (map (\<lambda>m. length (coord_forward m ch ! i)) ?mods)"
        using i l by (simp add: length_concat o_def)
      also have "\<dots> = sum_list (map output_dim ?mods)"
        using i l by (simp add: coord_forward_def)
      finally show "length (?g ch ! i) = sum_list (map output_dim ?mods)" .
    qed
    then have eq: "map (\<lambda>ch. length (?g ch ! i)) persistences0
        = map (\<lambda>ch. sum_list (map output_dim ?mods)) persistences0" by simp
    have "length (concat (map (\<lambda>t. t ! i) (map ?g persistences0)))
        = sum_list (map (\<lambda>ch. length (?g ch ! i)) persistences0)"
      by (simp add: length_concat o_def)
    also have "\<dots> = sum_list (map (\<lambda>ch. sum_list (map output_dim ?mods)) persistences0)"
      by (simp only: eq)
    also have "\<dots> = length persistences0 * sum_list (map output_dim ?mods)"
      by (simp add: sum_list_triv)
    finally show ?thesis .
  qed
  have "is_matrix (length persistences0 * sum_list (map output_dim ?mods)) ?ca"
    using w by (simp add: is_matrix_def list_all_iff)
  with res show ?thesis by simp
qed

lemma tensor_add_same_shape:
  assumes "length a = length b" "is_matrix d a" "is_matrix d b"
  shows "tensor_add a b = Inr (map2 (map2 (+)) a b)"
proof -
  have "collect (\<lambda>(r, s). add_rows r s) (zip a b) = Inr (map (\<lambda>(r, s). map2 (+) r s) (zip a b))"
  proof (rule collect_map)
    fix x assume x: "x \<in> set (zip a b)"
    obtain r s where rs: "x = (r, s)" by (cases x)
    have "r \<in> set a" "s \<in> set b"
      using x rs by (auto dest: set_zip_leftD set_zip_rightD)
    then have "length r = length s"
      using assms(2,3) by (simp add: is_matrix_def list_all_iff)
    then show "(case x of (r, s) \<Rightarrow> add_rows r s) = Inr (case x of (r, s) \<Rightarrow> map2 (+) r s)"
      by (simp add: rs add_rows_def)
  qed
  then show ?thesis using assms(1) by (simp add: tensor_add_def)
qed

lemma map2_rows_shape:
  assumes "length a = length b" "is_matrix d a" "is_matrix d b"
  shows "length (map2 (map2 (+)) a b) = length a \<and> is_matrix d (map2 (map2 (+)) a b)"
  using assms by (auto simp: is_matrix_def list_all_length)

lemma relu_shape: "length (relu m) = length m" "is_matrix d (relu m) = is_matrix d m"
  by (simp_all add: relu_def is_matrix_def list_all_iff)

lemma total_coord: "sum_list (map (\<lambda>key. n) transform_names) = 4 * (n::nat)"
  by (simp add: transform_names_def)

lemma init_out:
  "cfg_residual_and_bn c \<Longrightarrow>
   out (TopologyLayer_init c p)
     = Linear (cfg_num_filtrations c * (4 * cfg_num_coord_funs c)) (cfg_features_in c) (out_params p)"
  by (simp add: TopologyLayer_init_def Let_def total_coord)

lemma init_bn:
  "cfg_residual_and_bn c \<Longrightarrow>
   bn (TopologyLayer_init c p)
     = Some \<lparr>num_features = cfg_features_in c, bn_raises = fst (bn_params p),
             bn_value = snd (bn_params p)\<rparr>"
  by (simp add: TopologyLayer_init_def Let_def)

lemma init_coord_fun_modules:
  "coord_fun_modules (TopologyLayer_init c p) \<noteq> []"
  "sum_list (map output_dim (coord_fun_modules (TopologyLayer_init c p))) = 4 * cfg_num_coord_funs c"
  by (simp_all add: TopologyLayer_init_def Let_def o_def total_coord)
    (simp add: transform_names_def)

lemma linear_forward_shape:
  assumes "is_matrix n_in inp"
  shows "\<exists>proj. linear_forward (Linear n_in n_out wb) inp = Inr proj
     \<and> proj = map (linear_row (Linear n_in n_out wb)) inp
     \<and> length proj = length inp \<and> is_matrix n_out proj"
  using assms
  by (simp add: linear_forward_def Linear_def linear_row_def is_matrix_def list_all_iff)

lemma bn_forward_shape:
  assumes "is_matrix (num_features b) inp" "\<not> bn_raises b inp"
  shows "\<exists>normed. bn_forward b inp = Inr normed \<and> length normed = length inp
     \<and> is_matrix (num_features b) normed"
  using assms by (simp add: bn_forward_def is_matrix_def list_all_iff)

lemma combine_residual:
  assumes init: "L = TopologyLayer_init c p" and res: "cfg_residual_and_bn c"
    and nd: "\<not> (cfg_dim1 c \<and> cfg_dist_dim1 c)"
    and x: "is_matrix (cfg_features_in c) x"
    and ca: "length ca = length x"
      "is_matrix (cfg_num_filtrations c * (4 * cfg_num_coord_funs c)) ca"
    and bn_ok: "\<forall>m. length m = length x \<longrightarrow> \<not> fst (bn_params p) m"
  shows "\<exists>proj normed bnm. linear_forward (out L) ca = Inr proj
     \<and> bn L = Some bnm \<and> bn_forward bnm proj = Inr normed
     \<and> length normed = length x \<and> is_matrix (cfg_features_in c) normed
     \<and> combine L x ca ga bo
         = Inr (map2 (map2 (+)) x (if cfg_swap_bn_order c then relu normed else normed), ga)"
proof -
  let ?bnm = "\<lparr>num_features = cfg_features_in c, bn_raises = fst (bn_params p),
             bn_value = snd (bn_params p)\<rparr>"
  have o: "out L = Linear (cfg_num_filtrations c * (4 * cfg_num_coord_funs c))
      (cfg_features_in c) (out_params p)"
    using init res by (simp add: init_out)
  have b: "bn L = Some ?bnm" using init res by (simp add: init_bn)
  have fl: "residual_and_bn L" "\<not> (dim1 L \<and> dist_dim1 L)" "swap_bn_order L = cfg_swap_bn_order c"
    using init res nd by (simp_all add: init_flags)
  obtain proj where proj: "linear_forward (out L) ca = Inr proj" "length proj = length ca"
    "is_matrix (cfg_features_in c) proj"
    unfolding o using linear_forward_shape[OF ca(2)] by blast
  have nr: "\<not> bn_raises ?bnm proj" using bn_ok proj(2) ca(1) by simp
  obtain normed where normed: "bn_forward ?bnm proj = Inr normed" "length normed = length proj"
    "is_matrix (cfg_features_in c) normed"
    using bn_forward_shape[of ?bnm proj] proj(3) nr by auto
  let ?y = "if cfg_swap_bn_order c then relu normed else normed"
  have ys: "length x = length ?y" "is_matrix (cfg_features_in c) ?y"
    using normed proj(2) ca(1) by (simp_all add: relu_shape)
  have add: "tensor_add x ?y = Inr (map2 (map2 (+)) x ?y)"
    by (rule tensor_add_same_shape[OF ys(1) x ys(2)])
  have "combine L x ca ga bo = Inr (map2 (map2 (+)) x ?y, ga)"
    using fl proj(1) b normed(1) add by (auto simp: combine_def)
  then show ?thesis using proj b normed ca(1) by auto
qed

text \<open>
  C5 (amended). For a layer built by the constructor with \<open>residual_and_bn\<close> and without
  the distinct dim1 head (not both \<open>dim1\<close> and \<open>dist_dim1\<close>), an input x of \<open>features_in\<close>
  columns, dim0 persistence pairs of shape [num_filtrations, N, 2] with N the number of
  rows of x, and a normalisation that does not raise on N rows: the coordinate
  activations, their projection by \<open>out\<close> and its normalisation by \<open>bn\<close> exist, and
  whenever the stages before return (the removal of duplicate edges, the persistence
  computation, the dim1 aggregation), forward of either file returns, as node embeddings,
  x plus the normalised projection, with ReLU applied to the normalised projection first
  exactly when \<open>swap_bn_order\<close> is set. The sum has the rows and the columns of x; the
  argument \<open>features_out\<close> of the constructor occurs nowhere.
\<close>

theorem forward_residual:
  assumes init: "L = TopologyLayer_init c p" and res: "cfg_residual_and_bn c"
    and nd: "\<not> (cfg_dim1 c \<and> cfg_dist_dim1 c)"
    and x: "is_matrix (cfg_features_in c) x"
    and p0: "p0 \<noteq> []" "length p0 = cfg_num_filtrations c"
      "list_all (\<lambda>ch. length ch = length x) p0"
    and bn_ok: "\<forall>m. length m = length x \<longrightarrow> \<not> fst (bn_params p) m"
  shows "\<exists>ca proj normed bnm.
       compute_coord_activations L p0 False = Inr ca
     \<and> linear_forward (out L) ca = Inr proj
     \<and> bn L = Some bnm \<and> bn_forward bnm proj = Inr normed
     \<and> length (map2 (map2 (+)) x (if cfg_swap_bn_order c then relu normed else normed))
          = length x
     \<and> is_matrix (cfg_features_in c)
          (map2 (map2 (+)) x (if cfg_swap_bn_order c then relu normed else normed))
     \<and> (\<forall>ext b b' p1 filt ga rf.
           data_utils_remove_duplicate_edges ext b = Inr b'
           \<and> compute_persistence ext L x b' rf = Inr (p0, p1, filt)
           \<and> graph_activations1_of collapse_dim1 L p1 (slices_edge_index b') = Inr ga
           \<longrightarrow> forward ext L x b rf
                 = Inr (map2 (map2 (+)) x (if cfg_swap_bn_order c then relu normed else normed),
                        ga, filt))
     \<and> (\<forall>ext ei p1 filt ga rf.
           compute_persistence_topolayer ext L x (Some ei) None rf = Inr (p0, p1, filt)
           \<and> graph_activations1_of collapse_dim1_topolayer L p1 [edge_index_shape0 ei] = Inr ga
           \<longrightarrow> forward_topolayer ext L x (Some ei) None rf
                 = Inr (map2 (map2 (+)) x (if cfg_swap_bn_order c then relu normed else normed),
                        ga, filt))"
proof -
  have mods: "coord_fun_modules L \<noteq> []"
    "sum_list (map output_dim (coord_fun_modules L)) = 4 * cfg_num_coord_funs c"
    using init by (simp_all add: init_coord_fun_modules)
  obtain ca where ca: "compute_coord_activations L p0 False = Inr ca" "length ca = length x"
    "is_matrix (cfg_num_filtrations c * (4 * cfg_num_coord_funs c)) ca"
    using compute_coord_activations0_rows[OF mods(1) p0(1) p0(3)] mods(2) p0(2) by auto
  obtain proj normed bnm where st: "linear_forward (out L) ca = Inr proj"
    "bn L = Some bnm" "bn_forward bnm proj = Inr normed"
    "length normed = length x" "is_matrix (cfg_features_in c) normed"
    and comb: "\<And>ga bo. combine L x ca ga bo
         = Inr (map2 (map2 (+)) x (if cfg_swap_bn_order c then relu normed else normed), ga)"
  proof -
    from combine_residual[OF init res nd x ca(2,3) bn_ok, of None None]
    obtain proj normed bnm where a: "linear_forward (out L) ca = Inr proj"
      "bn L = Some bnm" "bn_forward bnm proj = Inr normed"
      "length normed = length x" "is_matrix (cfg_features_in c) normed" by blast
    have "combine L x ca ga bo
         = Inr (map2 (map2 (+)) x (if cfg_swap_bn_order c then relu normed else normed), ga)"
      for ga bo
      using combine_residual[OF init res nd x ca(2,3) bn_ok, of ga bo] a by auto
    with a show ?thesis using that by blast
  qed
  let ?res = "map2 (map2 (+)) x (if cfg_swap_bn_order c then relu normed else normed)"
  have ys: "length x = length (if cfg_swap_bn_order c then relu normed else normed)"
    "is_matrix (cfg_features_in c) (if cfg_swap_bn_order c then relu normed else normed)"
    using st(4,5) by (simp_all add: relu_shape)
  have shape: "length ?res = length x" "is_matrix (cfg_features_in c) ?res"
    using map2_rows_shape[OF ys(1) x ys(2)] by simp_all
  have tail: "forward_tail collapse L x bo es (p0, p1, filt) = Inr (?res, ga, filt)"
    if "graph_activations1_of collapse L p1 es = Inr ga" for collapse bo es p1 filt ga
    using that by (simp add: forward_tail_def ca(1) comb)
  have m: "forward ext L x b rf = Inr (?res, ga, filt)"
    if "data_utils_remove_duplicate_edges ext b = Inr b'"
      "compute_persistence ext L x b' rf = Inr (p0, p1, filt)"
      "graph_activations1_of collapse_dim1 L p1 (slices_edge_index b') = Inr ga"
    for ext b b' p1 filt ga rf
    using that by (simp add: forward_def tail)
  have t: "forward_topolayer ext L x (Some ei) None rf = Inr (?res, ga, filt)"
    if "compute_persistence_topolayer ext L x (Some ei) None rf = Inr (p0, p1, filt)"
      "graph_activations1_of collapse_dim1_topolayer L p1 [edge_index_shape0 ei] = Inr ga"
    for ext ei p1 filt ga rf
    using that by (simp add: forward_topolayer_def tail)
  show ?thesis
    using ca(1) st(1-3) shape m t by blast
qed

theorem forward_residual_witness:
  "forward example_ext example_layer example_x example_batch False
     = Inr ([[8], [13]], Some [[0, 0, 0, 0]], None)
   \<and> forward_topolayer example_ext example_layer example_x (Some [(0, 1), (1, 0)]) None False
     = Inr ([[0], [1]], Some [[0, 0, 0, 0]], None)"
proof -
  let ?b' = "\<lparr>batch_x = [[0], [1]], batch_edge_index = [(0, 1)], batch_batch = [0, 0],
      slices_x = [0, 2], slices_edge_index = [0, 1]\<rparr>"
  let ?p0 = "[[(0, 1), (1, 1)]] :: pairs"
  let ?q0 = "[[(0, 0), (0, 0)]] :: pairs"
  let ?ei = "[(0, 1), (1, 0)] :: edge_index"
  have init: "example_layer = TopologyLayer_init example_config example_params"
    by (simp add: example_layer_init)
  have res: "cfg_residual_and_bn example_config"
    and nd: "\<not> (cfg_dim1 example_config \<and> cfg_dist_dim1 example_config)"
    and sw: "\<not> cfg_swap_bn_order example_config"
    by (simp_all add: example_config_def)
  have x: "is_matrix (cfg_features_in example_config) example_x"
    by (simp add: example_config_def example_x_def is_matrix_def)
  have p0: "?p0 \<noteq> []" "length ?p0 = cfg_num_filtrations example_config"
    "list_all (\<lambda>ch. length ch = length example_x) ?p0"
    by (simp_all add: example_config_def example_x_def)
  have q0: "?q0 \<noteq> []" "length ?q0 = cfg_num_filtrations example_config"
    "list_all (\<lambda>ch. length ch = length example_x) ?q0"
    by (simp_all add: example_config_def example_x_def)
  have bn_ok: "\<forall>m. length m = length example_x \<longrightarrow> \<not> fst (bn_params example_params) m"
    by (simp add: example_params_def)
  have first: "forward example_ext example_layer example_x example_batch False
     = Inr ([[8], [13]], Some [[0, 0, 0, 0]], None)"
  proof -
    from forward_residual[OF init res nd x p0 bn_ok]
    obtain ca proj normed bnm where
      ca: "compute_coord_activations example_layer ?p0 False = Inr ca"
      and proj: "linear_forward (out example_layer) ca = Inr proj"
      and bnm: "bn example_layer = Some bnm" and normed: "bn_forward bnm proj = Inr normed"
      and fw: "\<forall>ext b b' p1 filt ga rf.
           data_utils_remove_duplicate_edges ext b = Inr b'
           \<and> compute_persistence ext example_layer example_x b' rf = Inr (?p0, p1, filt)
           \<and> graph_activations1_of collapse_dim1 example_layer p1 (slices_edge_index b') = Inr ga
           \<longrightarrow> forward ext example_layer example_x b rf
                 = Inr (map2 (map2 (+)) example_x
                          (if cfg_swap_bn_order example_config then relu normed else normed),
                        ga, filt)"
      by (elim exE conjE) (rule that)
    have e1: "data_utils_remove_duplicate_edges example_ext example_batch = Inr ?b'"
      by code_simp
    have e2: "compute_persistence example_ext example_layer example_x ?b' False
        = Inr (?p0, [[(0, 0)]], None)"
      by code_simp
    have e3: "graph_activations1_of collapse_dim1 example_layer [[(0, 0)]] (slices_edge_index ?b')
        = Inr (Some [[0, 0, 0, 0]])"
      by code_simp
    have "compute_coord_activations example_layer ?p0 False = Inr [[2, 2, 2, 2], [3, 3, 3, 3]]"
      by code_simp
    with ca have ca': "ca = [[2, 2, 2, 2], [3, 3, 3, 3]]" by simp
    have "linear_forward (out example_layer) [[2, 2, 2, 2], [3, 3, 3, 3]] = Inr [[8], [12]]"
      by code_simp
    with proj ca' have proj': "proj = [[8], [12]]" by simp
    have "bn_forward (the (bn example_layer)) [[8], [12]] = Inr [[8], [12]]"
      by code_simp
    with normed bnm proj' have normed': "normed = [[8], [12]]" by simp
    show ?thesis
      using fw[rule_format, OF conjI[OF e1 conjI[OF e2 e3]]] sw
      by (simp add: normed' example_x_def)
  qed
  have second: "forward_topolayer example_ext example_layer example_x (Some ?ei) None False
     = Inr ([[0], [1]], Some [[0, 0, 0, 0]], None)"
  proof -
    from forward_residual[OF init res nd x q0 bn_ok]
    obtain ca proj normed bnm where
      ca: "compute_coord_activations example_layer ?q0 False = Inr ca"
      and proj: "linear_forward (out example_layer) ca = Inr proj"
      and bnm: "bn example_layer = Some bnm" and normed: "bn_forward bnm proj = Inr normed"
      and fw: "\<forall>ext ei p1 filt ga rf.
           compute_persistence_topolayer ext example_layer example_x (Some ei) None rf
             = Inr (?q0, p1, filt)
           \<and> graph_activations1_of collapse_dim1_topolayer example_layer p1 [edge_index_shape0 ei]
             = Inr ga
           \<longrightarrow> forward_topolayer ext example_layer example_x (Some ei) None rf
                 = Inr (map2 (map2 (+)) example_x
                          (if cfg_swap_bn_order example_config then relu normed else normed),
                        ga, filt)"
      by (elim exE conjE) (rule that)
    have e2: "compute_persistence_topolayer example_ext example_layer example_x (Some ?ei) None False
        = Inr (?q0, [[(0, 0), (0, 0)]], None)"
      by code_simp
    have e3: "graph_activations1_of collapse_dim1_topolayer example_layer [[(0, 0), (0, 0)]]
        [edge_index_shape0 ?ei] = Inr (Some [[0, 0, 0, 0]])"
      by code_simp
    have "compute_coord_activations example_layer ?q0 False = Inr [[0, 0, 0, 0], [0, 0, 0, 0]]"
      by code_simp
    with ca have ca': "ca = [[0, 0, 0, 0], [0, 0, 0, 0]]" by simp
    have "linear_forward (out example_layer) [[0, 0, 0, 0], [0, 0, 0, 0]] = Inr [[0], [0]]"
      by code_simp
    with proj ca' have proj': "proj = [[0], [0]]" by simp
    have "bn_forward (the (bn example_layer)) [[0], [0]] = Inr [[0], [0]]"
      by code_simp
    with normed bnm proj' have normed': "normed = [[0], [0]]" by simp
    show ?thesis
      using fw[rule_format, OF conjI[OF e2 e3]] sw
      by (simp add: normed' example_x_def)
  qed
  from first second show ?thesis by blast
qed

text \<open>
  The claim as stated fails when the distinct dim1 head is active: with \<open>residual_and_bn\<close>,
  \<open>dim1\<close> and \<open>dist_dim1\<close> set, forward of models.py does not return x plus the normalised
  projection of the dim0 activations, it raises at \<open>self.out1(graph_activations1)[batch]\<close>.
\<close>

theorem forward_dist_dim1_raises_example:
  "forward example_ext example_layer_dist example_x example_batch False = Inl IndexError"
  by code_simp

lemma combine_dist_dim1_raises:
  assumes "residual_and_bn L" "dim1 L" "dist_dim1 L"
  shows "\<exists>e. combine L x ca ga bo = Inl e"
  using assms
  by (auto simp: combine_def iadd_def split: sum.splits option.splits)

lemma forward_tail_dist_dim1_raises:
  assumes "residual_and_bn L" "dim1 L" "dist_dim1 L"
  shows "\<exists>e. forward_tail collapse L x bo es ps = Inl e"
proof -
  obtain p0 p1 filt where ps: "ps = (p0, p1, filt)" by (cases ps)
  show ?thesis
  proof (cases "compute_coord_activations L p0 False")
    case (Inl e) then show ?thesis by (simp add: forward_tail_def ps)
  next
    case ca: (Inr ca)
    show ?thesis
    proof (cases "graph_activations1_of collapse L p1 es")
      case (Inl e) then show ?thesis by (simp add: forward_tail_def ps ca)
    next
      case (Inr ga)
      obtain e where "combine L x ca ga bo = Inl e"
        using combine_dist_dim1_raises[OF assms] by blast
      then show ?thesis by (simp add: forward_tail_def ps ca Inr)
    qed
  qed
qed

lemma combine_passes_dim1:
  assumes "\<not> (dim1 L \<and> dist_dim1 L)" "combine L x ca ga bo = Inr (out_activations, ga')"
  shows "ga' = ga"
  using assms
  by (auto simp: combine_def split: sum.splits option.splits if_splits)

text \<open>
  C6. With \<open>residual_and_bn\<close>, \<open>dim1\<close> and \<open>dist_dim1\<close> set, forward of either file raises on
  every input: if it gets as far as \<open>out_activations += self.out1(graph_activations1)[batch]\<close>,
  the index is the batch object (not a tensor index) or \<open>None\<close> (which adds a dimension the
  in-place addition refuses). Nothing is added to the node embeddings and nothing is
  returned. The second half of the claim holds: unless both \<open>dim1\<close> and \<open>dist_dim1\<close> are
  set, the dim1 activations passed to the last part of forward are its second output.
\<close>

theorem dist_dim1_head_raises:
  "(residual_and_bn L \<and> dim1 L \<and> dist_dim1 L \<longrightarrow>
      (\<exists>e. forward ext L x b rf = Inl e) \<and> (\<exists>e. forward_topolayer ext L x ei bo rf = Inl e))
   \<and> (\<not> (dim1 L \<and> dist_dim1 L) \<longrightarrow>
        (\<forall>out_activations ga'. combine L x ca ga bo = Inr (out_activations, ga') \<longrightarrow> ga' = ga))"
proof (intro conjI impI allI)
  assume a: "residual_and_bn L \<and> dim1 L \<and> dist_dim1 L"
  then have t: "\<And>collapse bo es ps. \<exists>e. forward_tail collapse L x bo es ps = Inl e"
    using forward_tail_dist_dim1_raises by blast
  show "\<exists>e. forward ext L x b rf = Inl e"
  proof (cases "data_utils_remove_duplicate_edges ext b")
    case (Inl e) then show ?thesis by (simp add: forward_def)
  next
    case b': (Inr b')
    show ?thesis
    proof (cases "compute_persistence ext L x b' rf")
      case (Inl e) then show ?thesis by (simp add: forward_def b')
    next
      case (Inr ps)
      then show ?thesis using t[of collapse_dim1 "Some b'" "slices_edge_index b'" ps]
        by (simp add: forward_def b')
    qed
  qed
  show "\<exists>e. forward_topolayer ext L x ei bo rf = Inl e"
  proof (cases "case bo of
              None \<Rightarrow> (case ei of None \<Rightarrow> Inl AttributeError
                       | Some ei' \<Rightarrow> Inr [edge_index_shape0 ei'])
            | Some bb \<Rightarrow> Inr (slices_edge_index bb)")
    case (Inl e) then show ?thesis by (simp add: forward_topolayer_def)
  next
    case es: (Inr es)
    show ?thesis
    proof (cases "compute_persistence_topolayer ext L x ei bo rf")
      case (Inl e) then show ?thesis by (simp add: forward_topolayer_def es)
    next
      case (Inr ps)
      then show ?thesis using t[of collapse_dim1_topolayer bo es ps]
        by (simp add: forward_topolayer_def es)
    qed
  qed
next
  fix out_activations ga'
  assume "\<not> (dim1 L \<and> dist_dim1 L)" "combine L x ca ga bo = Inr (out_activations, ga')"
  then show "ga' = ga" by (rule combine_passes_dim1)
qed

theorem dist_dim1_head_raises_witness:
  "(\<exists>e. forward example_ext example_layer_dist example_x example_batch False = Inl e)
   \<and> (\<exists>e. forward_topolayer example_ext example_layer_dist example_x (Some [(0, 1), (1, 0)]) None
            False = Inl e)
   \<and> (\<exists>out_activations. combine example_layer example_x [[2, 2, 2, 2], [3, 3, 3, 3]]
          (Some [[0, 0, 0, 0]]) None = Inr (out_activations, Some [[0, 0, 0, 0]]))"
proof -
  have f: "residual_and_bn example_layer_dist \<and> dim1 example_layer_dist \<and> dist_dim1 example_layer_dist"
    by (simp add: example_layer_dist_def example_layer_def)
  have g: "\<not> (dim1 example_layer \<and> dist_dim1 example_layer)"
    by (simp add: example_layer_def)
  have c: "combine example_layer example_x [[2, 2, 2, 2], [3, 3, 3, 3]] (Some [[0, 0, 0, 0]]) None
      = Inr ([[8], [13]], Some [[0, 0, 0, 0]])"
    by code_simp
  note th = dist_dim1_head_raises[of example_layer_dist example_ext example_x example_batch False
      "Some [(0, 1), (1, 0)]" None]
  note th2 = dist_dim1_head_raises[of example_layer example_ext example_x example_batch False
      None None "[[2, 2, 2, 2], [3, 3, 3, 3]]" "Some [[0, 0, 0, 0]]"]
  have "(\<exists>e. forward example_ext example_layer_dist example_x example_batch False = Inl e)"
    "(\<exists>e. forward_topolayer example_ext example_layer_dist example_x (Some [(0, 1), (1, 0)]) None
            False = Inl e)"
    using th f by blast+
  moreover have "\<exists>out_activations. combine example_layer example_x [[2, 2, 2, 2], [3, 3, 3, 3]]
          (Some [[0, 0, 0, 0]]) None = Inr (out_activations, Some [[0, 0, 0, 0]])"
    using th2 g c by blast
  ultimately show ?thesis by blast
qed

text \<open>The two failures on the example graph, with the engine and the removal as modelled:
  RuntimeError without a batch (topolayer.py), IndexError with the batch object
  (models.py).\<close>

theorem dist_dim1_head_raises_examples:
  "forward_topolayer example_ext example_layer_dist example_x (Some [(0, 1), (1, 0)]) None False
     = Inl RuntimeError
   \<and> forward example_ext (example_layer_dist\<lparr>swap_bn_order := True\<rparr>) example_x example_batch False
     = Inl IndexError"
  by code_simp

lemma compute_persistence_topolayer_batch_raises:
  "\<exists>e. compute_persistence_topolayer ext L x edge_index_arg (Some b) return_filtration = Inl e"
  by (simp add: compute_persistence_topolayer_def split: option.splits sum.splits)

text \<open>
  Given a batch object, forward of topolayer.py raises, whatever the layer, the input and
  the batch are: compute_persistence binds \<open>vertex_slices\<close> and \<open>edge_slices\<close> only when
  \<open>batch is None\<close>, the other branch being commented out, and uses them in every run.
\<close>

lemma forward_topolayer_batch_raises:
  "\<exists>e. forward_topolayer ext L x edge_index_arg (Some b) return_filtration = Inl e"
proof -
  obtain e where "compute_persistence_topolayer ext L x edge_index_arg (Some b)
      return_filtration = Inl e"
    using compute_persistence_topolayer_batch_raises by blast
  then show ?thesis by (simp add: forward_topolayer_def)
qed

text \<open>
  C10. The two implementations of the layer are to compute the same outputs from the same
  parameters and the same input. They do not on the example batch, one graph of two
  vertices whose offsets satisfy the invariant of packed batches: forward of models.py
  returns the node embeddings and the dim1 graph activations, forward of topolayer.py
  given the same batch raises UnboundLocalError.
\<close>

theorem forward_implementations_differ:
  "packed_offsets (slices_x example_batch) (int (length (batch_x example_batch)))
   \<and> packed_offsets (slices_edge_index example_batch)
        (int (length (batch_edge_index example_batch)))
   \<and> forward example_ext example_layer example_x example_batch False
        = Inr ([[8], [13]], Some [[0, 0, 0, 0]], None)
   \<and> forward_topolayer example_ext example_layer example_x None (Some example_batch) False
        = Inl UnboundLocalError"
  by code_simp

end
